theory Spec2Isabelle
  imports Main
begin

section \<open>Agent registry and layout resolution\<close>

text \<open>
  The registry (\<^verbatim>\<open>agents/registry.ts\<close>) is a static table from agent identifiers to
  definitions. Only the fields read by \<^verbatim>\<open>resolveAgentLayout\<close> are kept: the label
  and the layout defaults. \<^verbatim>\<open>AgentLayoutDefaults\<close> is \<^verbatim>\<open>AgentLayout\<close> plus the
  optional \<^verbatim>\<open>globalCommandsDir\<close>.

  A field of a layout object holds a string or \<^verbatim>\<open>undefined\<close> (\<open>None\<close>): the type
  \<^verbatim>\<open>AgentLayout\<close> promises strings, but \<^verbatim>\<open>resolveAgentLayout\<close> builds its result with a
  spread and a cast, so an override key that is present with the value \<^verbatim>\<open>undefined\<close>
  reaches the result. Every field of the registry table holds a string.
\<close>

record AgentLayout =
  commandsDir :: "string option"
  agentDir :: "string option"
  docFile :: "string option"

record AgentLayoutDefaults = AgentLayout +
  globalCommandsDir :: "string option"

record AgentDefinition =
  label :: string
  layout :: AgentLayoutDefaults

definition mkDefinition :: "string \<Rightarrow> string \<Rightarrow> string option \<Rightarrow> string \<Rightarrow> string \<Rightarrow> AgentDefinition" where
  "mkDefinition l c g a d =
     \<lparr>label = l,
      layout = \<lparr>commandsDir = Some c, agentDir = Some a, docFile = Some d,
                globalCommandsDir = g\<rparr>\<rparr>"

definition agentDefinitions :: "(string \<times> AgentDefinition) list" where
  "agentDefinitions =
    [(''claude-code'',
        mkDefinition ''Claude Code'' ''.claude/commands/kiro'' (Some ''~/.claude/commands'')
          ''.claude'' ''CLAUDE.md''),
     (''claude-code-agent'',
        mkDefinition ''Claude Code Agents'' ''.claude/commands/kiro'' (Some ''~/.claude/commands'')
          ''.claude'' ''CLAUDE.md''),
     (''codex'',
        mkDefinition ''Codex CLI'' ''.codex/prompts'' (Some ''~/.codex/prompts'')
          ''.codex'' ''AGENTS.md''),
     (''cursor'',
        mkDefinition ''Cursor IDE'' ''.cursor/commands/kiro'' (Some ''~/.cursor/commands'')
          ''.cursor'' ''AGENTS.md''),
     (''github-copilot'',
        mkDefinition ''GitHub Copilot'' ''.github/prompts'' None
          ''.github'' ''AGENTS.md''),
     (''gemini-cli'',
        mkDefinition ''Gemini CLI'' ''.gemini/commands/kiro'' (Some ''~/.gemini/commands'')
          ''.gemini'' ''GEMINI.md''),
     (''windsurf'',
        mkDefinition ''Windsurf IDE'' ''.windsurf/workflows'' None
          ''.windsurf'' ''AGENTS.md''),
     (''antigravity'',
        mkDefinition ''Google Antigravity'' ''.agent/workflows''
          (Some ''~/.gemini/antigravity/global_workflows'')
          ''.agent'' ''AGENTS.md''),
     (''qwen-code'',
        mkDefinition ''Qwen Code'' ''.qwen/commands/kiro'' (Some ''~/.qwen/commands'')
          ''.qwen'' ''QWEN.md'')]"

datatype error =
    UnknownAgent string
  | GlobalUnsupported string
  | ManifestError string
  | FilesystemError string
  | BackupError string

text \<open>\<^verbatim>\<open>getAgentDefinition\<close>: a key outside the table throws.\<close>

definition getAgentDefinition :: "string \<Rightarrow> error + AgentDefinition" where
  "getAgentDefinition agent =
     (case map_of agentDefinitions agent of
        None \<Rightarrow> Inl (UnknownAgent agent)
      | Some definition \<Rightarrow> Inr definition)"

definition agentList :: "string list" where
  "agentList = map fst agentDefinitions"

text \<open>
  \<^verbatim>\<open>Partial<AgentLayout>\<close>: every key may be absent, and a key that is present holds a
  string or \<^verbatim>\<open>undefined\<close>. \<^verbatim>\<open>CCSddConfig\<close> has an optional table of such overrides and
  an optional \<^verbatim>\<open>global\<close> flag. \<open>noOverride\<close> is the empty object \<^verbatim>\<open>{}\<close>.
\<close>

datatype OverrideKey = Absent | Present "string option"

record LayoutOverride =
  commandsDirOv :: OverrideKey
  agentDirOv :: OverrideKey
  docFileOv :: OverrideKey

definition noOverride :: LayoutOverride where
  "noOverride = \<lparr>commandsDirOv = Absent, agentDirOv = Absent, docFileOv = Absent\<rparr>"

record CCSddConfig =
  agentLayouts :: "(string \<rightharpoonup> LayoutOverride) option"
  global :: "bool option"

text \<open>
  The object spread \<^verbatim>\<open>{ ...base, ...override }\<close>: a key that is present in the override
  wins, also when its value is \<^verbatim>\<open>undefined\<close>.
\<close>

definition spreadLayout :: "AgentLayoutDefaults \<Rightarrow> LayoutOverride \<Rightarrow> AgentLayout" where
  "spreadLayout base ov =
     \<lparr>commandsDir = (case commandsDirOv ov of Present v \<Rightarrow> v | Absent \<Rightarrow> commandsDir base),
      agentDir = (case agentDirOv ov of Present v \<Rightarrow> v | Absent \<Rightarrow> agentDir base),
      docFile = (case docFileOv ov of Present v \<Rightarrow> v | Absent \<Rightarrow> docFile base)\<rparr>"

definition startsWith :: "string \<Rightarrow> string \<Rightarrow> bool" where
  "startsWith s p = (take (length p) s = p)"

definition overrideFor :: "CCSddConfig option \<Rightarrow> string \<Rightarrow> LayoutOverride" where
  "overrideFor config agent =
     (case config of
        None \<Rightarrow> noOverride
      | Some c \<Rightarrow>
          (case agentLayouts c of
             None \<Rightarrow> noOverride
           | Some tbl \<Rightarrow> (case tbl agent of None \<Rightarrow> noOverride | Some ov \<Rightarrow> ov)))"

definition globalRequested :: "CCSddConfig option \<Rightarrow> bool" where
  "globalRequested config =
     (case config of None \<Rightarrow> False | Some c \<Rightarrow> (global c = Some True))"

text \<open>
  \<^verbatim>\<open>resolveAgentLayout\<close>. The two library calls \<^verbatim>\<open>path.join\<close> and \<^verbatim>\<open>homedir()\<close>
  are parameters (\<open>pathJoin\<close>, \<open>home\<close>). \<^verbatim>\<open>!globalDir\<close> holds for a missing and for an
  empty string.
\<close>

definition resolveAgentLayout ::
  "(string \<Rightarrow> string \<Rightarrow> string) \<Rightarrow> string \<Rightarrow> string \<Rightarrow> CCSddConfig option \<Rightarrow> error + AgentLayout" where
  "resolveAgentLayout pathJoin home agent config =
     (case getAgentDefinition agent of
        Inl e \<Rightarrow> Inl e
      | Inr definition \<Rightarrow>
          (let base = layout definition;
               ov = overrideFor config agent;
               lay = spreadLayout base ov
           in if globalRequested config then
                (case globalCommandsDir (layout definition) of
                   None \<Rightarrow> Inl (GlobalUnsupported (label definition))
                 | Some globalDir \<Rightarrow>
                     if globalDir = [] then Inl (GlobalUnsupported (label definition))
                     else if startsWith globalDir ''~/''
                       then Inr (lay\<lparr>commandsDir := Some (pathJoin home (drop 2 globalDir))\<rparr>)
                       else Inr (lay\<lparr>commandsDir := Some globalDir\<rparr>))
              else Inr lay))"

section \<open>The terminal and the conflict handler\<close>

datatype ConflictDecision = Overwrite | Skip | Append

datatype OverwritePolicy = PromptPolicy | SkipPolicy | ForcePolicy

text \<open>
  \<^verbatim>\<open>ConflictInfo\<close> is declared in \<^verbatim>\<open>plan/executor.ts\<close>; the handler reads these three
  fields of it. Categories and source modes are the strings of the source
  (\<^verbatim>\<open>'project-memory'\<close>, \<^verbatim>\<open>'template-json'\<close>).
\<close>

record ConflictInfo =
  category :: string
  relTargetPath :: string
  sourceMode :: string

record Choice =
  "value" :: ConflictDecision
  label :: string
  description :: "string option"

text \<open>
  The summaries come from \<^verbatim>\<open>summarizeCategories\<close>; the handler reads \<^verbatim>\<open>category\<close> and
  \<^verbatim>\<open>existing\<close>. The counts are JavaScript numbers, here \<open>int\<close>.
\<close>

record CategorySummary =
  category :: string
  total :: int
  existing :: int
  identical :: int

text \<open>
  Modelled from the spec: the prompt functions of \<^verbatim>\<open>cli/ui/prompt.ts\<close> are missing.
  The terminal holds the flag that \<^verbatim>\<open>isInteractive()\<close> reads, the inputs the user
  is going to type and the prompts shown so far. \<^verbatim>\<open>promptChoice\<close> returns the value of
  one of the offered choices (the selected index, or the default when the index is out of
  range); \<^verbatim>\<open>promptConfirm\<close> returns the user's yes or no. A prompt whose input never
  comes does not return: the result is \<open>None\<close>.
\<close>

datatype UserInput = Select nat | Confirm bool

datatype Prompt = ChoicePrompt string "Choice list" nat | ConfirmPrompt string bool

record Terminal =
  interactive :: bool
  pending :: "UserInput list"
  shown :: "Prompt list"

definition isInteractive :: "Terminal \<Rightarrow> bool" where
  "isInteractive t = interactive t"

definition promptChoice ::
  "string \<Rightarrow> Choice list \<Rightarrow> nat \<Rightarrow> Terminal \<Rightarrow> (ConflictDecision \<times> Terminal) option" where
  "promptChoice message choices defaultIndex t =
     (case pending t of
        Select i # rest \<Rightarrow>
          (let k = (if i < length choices then i else defaultIndex)
           in if k < length choices
              then Some (Choice.value (choices ! k),
                         t\<lparr>pending := rest,
                           shown := shown t @ [ChoicePrompt message choices defaultIndex]\<rparr>)
              else None)
      | _ \<Rightarrow> None)"

definition promptConfirm :: "string \<Rightarrow> bool \<Rightarrow> Terminal \<Rightarrow> (bool \<times> Terminal) option" where
  "promptConfirm message dflt t =
     (case pending t of
        Confirm b # rest \<Rightarrow>
          Some (b, t\<lparr>pending := rest, shown := shown t @ [ConfirmPrompt message dflt]\<rparr>)
      | _ \<Rightarrow> None)"

text \<open>The two maps the closure of \<^verbatim>\<open>createConflictHandler\<close> captures.\<close>

record HandlerState =
  remainingExisting :: "string \<rightharpoonup> int"
  stickyDecisions :: "string \<rightharpoonup> ConflictDecision"

text \<open>\<^verbatim>\<open>new Map(entries)\<close>: a later entry for the same key replaces an earlier one.\<close>

definition mapFromEntries :: "('k \<times> 'v) list \<Rightarrow> ('k \<rightharpoonup> 'v)" where
  "mapFromEntries entries = foldl (\<lambda>m (k, v). m(k \<mapsto> v)) Map.empty entries"

definition createConflictHandler ::
  "Terminal \<Rightarrow> CategorySummary list \<Rightarrow> OverwritePolicy \<Rightarrow> HandlerState option" where
  "createConflictHandler t summaries resolvedOverwrite =
     (if \<not> isInteractive t then None
      else Some \<lparr>remainingExisting =
                   mapFromEntries
                     (map (\<lambda>summary. (CategorySummary.category summary,
                                       CategorySummary.existing summary)) summaries),
                 stickyDecisions = Map.empty\<rparr>)"

definition projectMemory :: string where
  "projectMemory = ''project-memory''"

definition templateJson :: string where
  "templateJson = ''template-json''"

definition appendAllowed :: "ConflictInfo \<Rightarrow> bool" where
  "appendAllowed info =
     (ConflictInfo.category info = projectMemory \<and> ConflictInfo.sourceMode info \<noteq> templateJson)"

definition overwriteChoice :: Choice where
  "overwriteChoice =
     \<lparr>value = Overwrite, label = ''Overwrite this file'',
      description = Some ''Replace with the latest template content.''\<rparr>"

definition skipChoice :: Choice where
  "skipChoice =
     \<lparr>value = Skip, label = ''Keep existing file'',
      description = Some ''Leave the current file unchanged.''\<rparr>"

definition appendChoice :: Choice where
  "appendChoice =
     \<lparr>value = Append, label = ''Append template content'',
      description = Some ''Add new sections after the existing project memory file.''\<rparr>"

text \<open>The choice list of one prompt: \<^verbatim>\<open>choices.splice(1, 0, append)\<close> under the guard.\<close>

definition conflictChoices :: "ConflictInfo \<Rightarrow> Choice list" where
  "conflictChoices info =
     (if appendAllowed info then [overwriteChoice, appendChoice, skipChoice]
      else [overwriteChoice, skipChoice])"

definition updateMessage :: "ConflictInfo \<Rightarrow> string" where
  "updateMessage info = ''Update '' @ relTargetPath info @ ''?''"

definition applyToRestMessage :: string where
  "applyToRestMessage = ''Apply this choice to remaining files in this category?''"

text \<open>
  The function \<^verbatim>\<open>createConflictHandler\<close> returns, with the captured maps and the
  terminal passed explicitly.
\<close>

definition conflictHandler ::
  "OverwritePolicy \<Rightarrow> ConflictInfo \<Rightarrow> HandlerState \<times> Terminal \<Rightarrow>
     (ConflictDecision \<times> HandlerState \<times> Terminal) option" where
  "conflictHandler resolvedOverwrite info s =
     (case s of (h, t) \<Rightarrow>
       (case stickyDecisions h (ConflictInfo.category info) of
          Some cached \<Rightarrow> Some (cached, h, t)
        | None \<Rightarrow>
           (let remaining = (case remainingExisting h (ConflictInfo.category info) of
                               Some n \<Rightarrow> n | None \<Rightarrow> 1);
                h1 = h\<lparr>remainingExisting :=
                          (remainingExisting h)(ConflictInfo.category info \<mapsto> max (remaining - 1) 0)\<rparr>;
                choices = conflictChoices info;
                promptMessage = updateMessage info;
                defaultIndex = (if resolvedOverwrite = ForcePolicy then 0 else 1 :: nat)
            in case promptChoice promptMessage choices (min defaultIndex (length choices - 1)) t of
                 None \<Rightarrow> None
               | Some (decision, t1) \<Rightarrow>
                   if remaining > 1 then
                     (case promptConfirm applyToRestMessage True t1 of
                        None \<Rightarrow> None
                      | Some (applyToRest, t2) \<Rightarrow>
                          Some (decision,
                                (if applyToRest
                                 then h1\<lparr>stickyDecisions :=
                                           (stickyDecisions h1)(ConflictInfo.category info \<mapsto> decision)\<rparr>
                                 else h1),
                                t2))
                   else Some (decision, h1, t1))))"

text \<open>The handler called on a sequence of conflicts, in order, as the executor does.\<close>

fun handleConflicts ::
  "OverwritePolicy \<Rightarrow> ConflictInfo list \<Rightarrow> HandlerState \<times> Terminal \<Rightarrow>
     (ConflictDecision list \<times> HandlerState \<times> Terminal) option" where
  "handleConflicts resolvedOverwrite [] s = Some ([], s)"
| "handleConflicts resolvedOverwrite (info # infos) s =
     (case conflictHandler resolvedOverwrite info s of
        None \<Rightarrow> None
      | Some (d, s') \<Rightarrow>
          (case handleConflicts resolvedOverwrite infos s' of
             None \<Rightarrow> None
           | Some (ds, s'') \<Rightarrow> Some (d # ds, s'')))"

section \<open>Manifest, plan and file operations\<close>

text \<open>
  The filesystem under the working root: the content of every file, by path relative to
  the root, and the paths that cannot be written (permissions, full disk). A write to such
  a path fails and changes nothing.
\<close>

record FileSystem =
  files :: "string \<rightharpoonup> string"
  unwritable :: "string list"

definition writeFile :: "FileSystem \<Rightarrow> string \<Rightarrow> string \<Rightarrow> error + FileSystem" where
  "writeFile fs path bytes =
     (if path \<in> set (unwritable fs) then Inl (FilesystemError path)
      else Inr (fs\<lparr>files := (files fs)(path \<mapsto> bytes)\<rparr>))"

text \<open>
  Modelled from the spec: the manifest data model of section 3 (\<^verbatim>\<open>manifest/planner.ts\<close>
  is missing). A manifest is an ordered list of category entries; an entry has a category
  identifier, a source-mode tag and its artifact descriptors; a descriptor has a template
  source reference and a target path pattern with placeholders.
\<close>

record ArtifactDescriptor =
  templateSource :: string
  targetPattern :: string

record CategoryEntry =
  categoryId :: string
  sourceModeTag :: string
  artifacts :: "ArtifactDescriptor list"

type_synonym Manifest = "CategoryEntry list"

record ProcessedArtifact =
  sourcePath :: string
  targetPath :: string
  category :: string
  sourceMode :: string

text \<open>
  Modelled from the spec: the resolved configuration (\<^verbatim>\<open>mergeConfigAndArgs\<close> in
  \<^verbatim>\<open>cli/config.ts\<close> is missing). It has the fields \<^verbatim>\<open>agent\<close> and \<^verbatim>\<open>effectiveOverwrite\<close>
  that \<^verbatim>\<open>index.ts\<close> reads, the backup directory (\<open>None\<close> when backups are off) and the
  Resolution Context of section 3, a table from placeholder names to values.
\<close>

record ResolvedConfig =
  agent :: string
  effectiveOverwrite :: OverwritePolicy
  backupDir :: "string option"
  resolutionContext :: "(string \<times> string) list"

text \<open>
  The manifest parser and the template renderer read files this model does not hold;
  they are parameters.
\<close>

record Templates =
  parseManifest :: "string \<Rightarrow> Manifest option"
  render :: "ProcessedArtifact \<Rightarrow> string"

text \<open>
  Modelled from the spec: placeholder tokens (section 4.1; the planner is missing). A token
  is \<^verbatim>\<open>{{NAME}}\<close> as in the README's \<^verbatim>\<open>{{KIRO_DIR}}\<close>, the name a non-empty run of capital
  letters, digits and underscores. \<open>tokenAt s\<close> reads a token at the start of \<open>s\<close> and
  returns its name and the rest of the string.
\<close>

definition isNameChar :: "char \<Rightarrow> bool" where
  "isNameChar c = (c \<in> set ''ABCDEFGHIJKLMNOPQRSTUVWXYZ0123456789_'')"

definition tokenAt :: "string \<Rightarrow> (string \<times> string) option" where
  "tokenAt s =
     (if take 2 s = ''{{'' then
        (let body = drop 2 s;
             name = takeWhile isNameChar body;
             rest = dropWhile isNameChar body
         in if name \<noteq> [] \<and> take 2 rest = ''}}'' then Some (name, drop 2 rest) else None)
      else None)"

fun containsPlaceholder :: "string \<Rightarrow> bool" where
  "containsPlaceholder [] = False"
| "containsPlaceholder (c # cs) = (tokenAt (c # cs) \<noteq> None \<or> containsPlaceholder cs)"

text \<open>
  Modelled from the spec: every recognized token is replaced by its Resolution Context
  value; a token with no value stays where it is. The fuel bounds the number of steps;
  each step consumes at least one character, so the length of the pattern is enough.
\<close>

fun substituteFuel :: "nat \<Rightarrow> (string \<times> string) list \<Rightarrow> string \<Rightarrow> string" where
  "substituteFuel 0 ctx s = s"
| "substituteFuel (Suc n) ctx [] = []"
| "substituteFuel (Suc n) ctx (c # cs) =
     (case tokenAt (c # cs) of
        None \<Rightarrow> c # substituteFuel n ctx cs
      | Some (name, rest) \<Rightarrow>
          (case map_of ctx name of
             Some v \<Rightarrow> v @ substituteFuel n ctx rest
           | None \<Rightarrow> ''{{'' @ name @ ''}}'' @ substituteFuel n ctx rest))"

definition substitute :: "(string \<times> string) list \<Rightarrow> string \<Rightarrow> string" where
  "substitute ctx s = substituteFuel (length s) ctx s"

text \<open>
  Modelled from the spec: an unresolved or unknown placeholder is a fatal error. A target
  path in which a token is left after the substitution is refused.
\<close>

definition resolveTarget :: "(string \<times> string) list \<Rightarrow> string \<Rightarrow> error + string" where
  "resolveTarget ctx pattern =
     (let path = substitute ctx pattern
      in if containsPlaceholder path then Inl (ManifestError pattern) else Inr path)"

text \<open>
  Modelled from the spec: the planner's loop over the category entries and their artifact
  descriptors (section 4.1). The first unresolved target path fails the whole plan.
\<close>

fun planArtifacts ::
  "(string \<times> string) list \<Rightarrow> CategoryEntry \<Rightarrow> ArtifactDescriptor list \<Rightarrow>
     error + ProcessedArtifact list" where
  "planArtifacts ctx entry [] = Inr []"
| "planArtifacts ctx entry (d # ds) =
     (case resolveTarget ctx (targetPattern d) of
        Inl e \<Rightarrow> Inl e
      | Inr path \<Rightarrow>
          (case planArtifacts ctx entry ds of
             Inl e \<Rightarrow> Inl e
           | Inr rest \<Rightarrow>
               Inr (\<lparr>sourcePath = templateSource d, targetPath = path,
                     category = categoryId entry, sourceMode = sourceModeTag entry\<rparr> # rest)))"

fun planManifest :: "(string \<times> string) list \<Rightarrow> Manifest \<Rightarrow> error + ProcessedArtifact list" where
  "planManifest ctx [] = Inr []"
| "planManifest ctx (entry # entries) =
     (case planArtifacts ctx entry (artifacts entry) of
        Inl e \<Rightarrow> Inl e
      | Inr first \<Rightarrow>
          (case planManifest ctx entries of
             Inl e \<Rightarrow> Inl e
           | Inr rest \<Rightarrow> Inr (first @ rest)))"

text \<open>
  Modelled from the spec: the Manifest Planner (section 4.1; \<^verbatim>\<open>planFromFile\<close> in
  \<^verbatim>\<open>manifest/planner.ts\<close> is missing). A missing or malformed manifest file and an
  unresolved placeholder are \<open>ManifestError\<close>s; no partial plan is returned.
\<close>

definition planFromFile ::
  "Templates \<Rightarrow> FileSystem \<Rightarrow> string \<Rightarrow> ResolvedConfig \<Rightarrow> error + ProcessedArtifact list" where
  "planFromFile tpl fs manifestPath cfg =
     (case files fs manifestPath of
        None \<Rightarrow> Inl (ManifestError manifestPath)
      | Some manifestText \<Rightarrow>
          (case parseManifest tpl manifestText of
             None \<Rightarrow> Inl (ManifestError manifestPath)
           | Some manifest \<Rightarrow> planManifest (resolutionContext cfg) manifest))"

record FileOperation = ProcessedArtifact +
  existing :: bool
  identical :: bool
  content :: string

text \<open>
  Modelled from the spec: the File Operation Builder (section 4.2; \<^verbatim>\<open>buildFileOperations\<close>
  in \<^verbatim>\<open>plan/fileOperations.ts\<close> is missing). It renders the content, looks the target up
  and compares the bytes; it writes nothing.
\<close>

definition buildFileOperation :: "Templates \<Rightarrow> FileSystem \<Rightarrow> ProcessedArtifact \<Rightarrow> FileOperation" where
  "buildFileOperation tpl fs artifact =
     (let rendered = render tpl artifact;
          current = files fs (targetPath artifact)
      in \<lparr>sourcePath = sourcePath artifact, targetPath = targetPath artifact,
          category = ProcessedArtifact.category artifact,
          sourceMode = ProcessedArtifact.sourceMode artifact,
          existing = (current \<noteq> None),
          identical = (current = Some rendered),
          content = rendered\<rparr>)"

definition buildFileOperations ::
  "Templates \<Rightarrow> ProcessedArtifact list \<Rightarrow> ResolvedConfig \<Rightarrow> FileSystem \<Rightarrow> FileOperation list" where
  "buildFileOperations tpl plan cfg fs = map (buildFileOperation tpl fs) plan"

section \<open>Category summaries and policies\<close>

text \<open>
  Modelled from the spec: a conflicting file is one that exists and is not identical
  (section 3).
\<close>

definition conflicting :: "FileOperation \<Rightarrow> bool" where
  "conflicting operation = (FileOperation.existing operation \<and> \<not> FileOperation.identical operation)"

definition inCategory :: "string \<Rightarrow> FileOperation list \<Rightarrow> FileOperation list" where
  "inCategory c operations = filter (\<lambda>operation. ProcessedArtifact.category operation = c) operations"

definition countWhere :: "('a \<Rightarrow> bool) \<Rightarrow> 'a list \<Rightarrow> int" where
  "countWhere p xs = int (length (filter p xs))"

text \<open>
  Modelled from the spec: \<^verbatim>\<open>summarizeCategories\<close> (\<^verbatim>\<open>cli/policies.ts\<close> is missing). One
  summary per category, in the order the categories first occur, with the counts of
  section 3.
\<close>

definition summarizeCategory :: "FileOperation list \<Rightarrow> string \<Rightarrow> CategorySummary" where
  "summarizeCategory operations c =
     \<lparr>CategorySummary.category = c,
      total = countWhere (\<lambda>_. True) (inCategory c operations),
      CategorySummary.existing = countWhere FileOperation.existing (inCategory c operations),
      CategorySummary.identical = countWhere FileOperation.identical (inCategory c operations)\<rparr>"

definition summarizeCategories :: "FileOperation list \<Rightarrow> CategorySummary list" where
  "summarizeCategories operations =
     map (summarizeCategory operations)
       (rev (remdups (rev (map ProcessedArtifact.category operations))))"

text \<open>
  Modelled from the spec: the Category Policy table of section 4.3
  (\<^verbatim>\<open>determineCategoryPolicies\<close> in \<^verbatim>\<open>cli/policies.ts\<close> is missing). The conflicting
  files of a category are those counted existing and not identical.
\<close>

definition categoryPolicy :: "OverwritePolicy \<Rightarrow> CategorySummary \<Rightarrow> OverwritePolicy" where
  "categoryPolicy globalSetting summary =
     (case globalSetting of
        ForcePolicy \<Rightarrow> ForcePolicy
      | SkipPolicy \<Rightarrow> SkipPolicy
      | PromptPolicy \<Rightarrow>
          if CategorySummary.existing summary - CategorySummary.identical summary = 0
          then SkipPolicy else PromptPolicy)"

definition determineCategoryPolicies ::
  "CategorySummary list \<Rightarrow> ResolvedConfig \<Rightarrow> (string \<rightharpoonup> OverwritePolicy)" where
  "determineCategoryPolicies summaries cfg =
     mapFromEntries
       (map (\<lambda>summary. (CategorySummary.category summary,
                         categoryPolicy (effectiveOverwrite cfg) summary)) summaries)"

text \<open>
  Modelled from the spec: the executor's lookup of a category's policy
  (\<^verbatim>\<open>plan/executor.ts\<close> is missing). \<^verbatim>\<open>runPlanExecution\<close> passes an empty table under
  \<^verbatim>\<open>force\<close>; a category with no entry runs under the global setting.
\<close>

definition policyFor :: "(string \<rightharpoonup> OverwritePolicy) \<Rightarrow> ResolvedConfig \<Rightarrow> string \<Rightarrow> OverwritePolicy" where
  "policyFor categoryPolicies cfg c =
     (case categoryPolicies c of Some p \<Rightarrow> p | None \<Rightarrow> effectiveOverwrite cfg)"

section \<open>The world of one run\<close>

text \<open>
  What a run can observe and change: the filesystem, the terminal, the lines written
  through \<^verbatim>\<open>io.log\<close> and \<^verbatim>\<open>io.error\<close>, and the pipeline components called so far.
  The formatting helpers (\<^verbatim>\<open>formatHeading\<close>, \<^verbatim>\<open>formatWarning\<close>, ...) only colour text;
  a line is recorded by its kind and its data. \<open>ErrorLine\<close> is the line the \<^verbatim>\<open>catch\<close>
  blocks of \<^verbatim>\<open>index.ts\<close> write; \<open>OperationFailed\<close> is the executor's report of a
  per-file error.
\<close>

datatype Component =
    PlanFromFile
  | BuildFileOperations
  | SummarizeCategories
  | PrintSummary
  | DetermineCategoryPolicies
  | CreateConflictHandler
  | ExecuteProcessedArtifacts
  | PrintCompletionGuide

datatype LogLine =
    SummaryReport "CategorySummary list"
  | Heading string
  | ArtifactDetails "ProcessedArtifact list"
  | Warning string
  | SetupCompleted nat nat
  | CompletionGuide string
  | OperationFailed error
  | ErrorLine error

record World =
  fileSystem :: FileSystem
  terminal :: Terminal
  logged :: "LogLine list"
  errored :: "LogLine list"
  invoked :: "Component list"

definition ioLog :: "LogLine \<Rightarrow> World \<Rightarrow> World" where
  "ioLog line w = w\<lparr>logged := logged w @ [line]\<rparr>"

definition ioError :: "LogLine \<Rightarrow> World \<Rightarrow> World" where
  "ioError line w = w\<lparr>errored := errored w @ [line]\<rparr>"

definition called :: "Component \<Rightarrow> World \<Rightarrow> World" where
  "called c w = w\<lparr>invoked := invoked w @ [c]\<rparr>"

text \<open>
  Modelled from the spec: \<^verbatim>\<open>printSummary\<close> (\<^verbatim>\<open>cli/policies.ts\<close>) and
  \<^verbatim>\<open>printCompletionGuide\<close> (\<^verbatim>\<open>cli/agents.ts\<close>) are missing; each writes one report
  through \<^verbatim>\<open>io.log\<close>.
\<close>

definition printSummary :: "CategorySummary list \<Rightarrow> ResolvedConfig \<Rightarrow> World \<Rightarrow> World" where
  "printSummary summaries cfg w = ioLog (SummaryReport summaries) (called PrintSummary w)"

definition printCompletionGuide :: "string \<Rightarrow> World \<Rightarrow> World" where
  "printCompletionGuide a w = ioLog (CompletionGuide a) (called PrintCompletionGuide w)"

section \<open>The executor\<close>

record RunResult =
  written :: nat
  skipped :: nat

text \<open>
  Modelled from the spec: the Executor of section 4.5 (\<^verbatim>\<open>executeProcessedArtifacts\<close> in
  \<^verbatim>\<open>plan/executor.ts\<close> is missing). Its state is the world, the conflict handler's maps
  (\<open>None\<close> when \<^verbatim>\<open>onConflict\<close> is undefined), the counts, and the fatal error that
  halted it, if any. The messages it passes to the \<^verbatim>\<open>log\<close> callback are not specified and
  not modelled.
\<close>

record ExecState =
  world :: World
  handler :: "HandlerState option"
  result :: RunResult
  aborted :: "error option"

text \<open>
  Modelled from the spec: the backup location is the same relative path under the backup
  root (section 4.5); the delimiter of an append is not specified, a blank line here.
\<close>

definition backupPath :: "string \<Rightarrow> string \<Rightarrow> string" where
  "backupPath dir path = dir @ ''/'' @ path"

definition appendDelimiter :: string where
  "appendDelimiter = [CHR 0x0A, CHR 0x0A]"

definition countWritten :: "ExecState \<Rightarrow> ExecState" where
  "countWritten st = st\<lparr>result := (result st)\<lparr>written := written (result st) + 1\<rparr>\<rparr>"

definition countSkipped :: "ExecState \<Rightarrow> ExecState" where
  "countSkipped st = st\<lparr>result := (result st)\<lparr>skipped := skipped (result st) + 1\<rparr>\<rparr>"

text \<open>
  Modelled from the spec: a write of the target (sections 4.5 and 7). A failure is a
  per-file \<open>FilesystemError\<close>: it is reported and the run goes on.
\<close>

definition writeTarget :: "FileOperation \<Rightarrow> string \<Rightarrow> ExecState \<Rightarrow> ExecState" where
  "writeTarget operation bytes st =
     (case writeFile (fileSystem (world st)) (targetPath operation) bytes of
        Inl e \<Rightarrow> st\<lparr>world := ioError (OperationFailed e) (world st)\<rparr>
      | Inr fs' \<Rightarrow> countWritten (st\<lparr>world := (world st)\<lparr>fileSystem := fs'\<rparr>\<rparr>))"

text \<open>
  Modelled from the spec: overwrite, with the backup first when backups are enabled
  (sections 4.5, 5 and 7). A failed backup aborts the operation: the target is not written
  and the error halts the run.
\<close>

definition overwriteTarget :: "ResolvedConfig \<Rightarrow> FileOperation \<Rightarrow> ExecState \<Rightarrow> ExecState" where
  "overwriteTarget cfg operation st =
     (case backupDir cfg of
        None \<Rightarrow> writeTarget operation (content operation) st
      | Some dir \<Rightarrow>
          (case files (fileSystem (world st)) (targetPath operation) of
             None \<Rightarrow> writeTarget operation (content operation) st
           | Some old \<Rightarrow>
               (case writeFile (fileSystem (world st)) (backupPath dir (targetPath operation)) old of
                  Inl e \<Rightarrow> st\<lparr>aborted := Some (BackupError (targetPath operation))\<rparr>
                | Inr fs' \<Rightarrow>
                    writeTarget operation (content operation)
                      (st\<lparr>world := (world st)\<lparr>fileSystem := fs'\<rparr>\<rparr>))))"

text \<open>
  Modelled from the spec: append writes the rendered content after the existing content,
  separated by the delimiter, and counts as written; the decisions of the conflict handler
  are applied as section 4.5 lists them.
\<close>

definition appendTarget :: "FileOperation \<Rightarrow> ExecState \<Rightarrow> ExecState" where
  "appendTarget operation st =
     (case files (fileSystem (world st)) (targetPath operation) of
        None \<Rightarrow> writeTarget operation (content operation) st
      | Some old \<Rightarrow> writeTarget operation (old @ appendDelimiter @ content operation) st)"

definition applyDecision ::
  "ResolvedConfig \<Rightarrow> FileOperation \<Rightarrow> ConflictDecision \<Rightarrow> ExecState \<Rightarrow> ExecState" where
  "applyDecision cfg operation decision st =
     (case decision of
        Overwrite \<Rightarrow> overwriteTarget cfg operation st
      | Skip \<Rightarrow> countSkipped st
      | Append \<Rightarrow> appendTarget operation st)"

definition conflictInfoOf :: "FileOperation \<Rightarrow> ConflictInfo" where
  "conflictInfoOf operation =
     \<lparr>ConflictInfo.category = ProcessedArtifact.category operation,
      relTargetPath = targetPath operation,
      ConflictInfo.sourceMode = ProcessedArtifact.sourceMode operation\<rparr>"

text \<open>
  Modelled from the spec: the state machine of one File Operation (section 4.5), with the
  decision precedence of section 4.4: without a conflict handler a \<open>prompt\<close> category
  skips. \<open>None\<close>: the conflict handler waits for an input that never comes.
\<close>

definition executeOperation ::
  "ResolvedConfig \<Rightarrow> (string \<rightharpoonup> OverwritePolicy) \<Rightarrow> FileOperation \<Rightarrow> ExecState \<Rightarrow>
     ExecState option" where
  "executeOperation cfg categoryPolicies operation st =
     (if \<not> FileOperation.existing operation then Some (writeTarget operation (content operation) st)
      else if FileOperation.identical operation then Some st
      else
        (case policyFor categoryPolicies cfg (ProcessedArtifact.category operation) of
           ForcePolicy \<Rightarrow> Some (overwriteTarget cfg operation st)
         | SkipPolicy \<Rightarrow> Some (countSkipped st)
         | PromptPolicy \<Rightarrow>
             (case handler st of
                None \<Rightarrow> Some (countSkipped st)
              | Some h \<Rightarrow>
                  (case conflictHandler (effectiveOverwrite cfg) (conflictInfoOf operation)
                          (h, terminal (world st)) of
                     None \<Rightarrow> None
                   | Some (decision, h', t') \<Rightarrow>
                       Some (applyDecision cfg operation decision
                               (st\<lparr>world := (world st)\<lparr>terminal := t'\<rparr>,
                                   handler := Some h'\<rparr>))))))"

text \<open>
  Modelled from the spec: the operations are applied in plan order; a fatal error halts
  the run and is thrown to the caller, otherwise the counts are returned (section 5).
\<close>

fun executeOperations ::
  "ResolvedConfig \<Rightarrow> (string \<rightharpoonup> OverwritePolicy) \<Rightarrow> FileOperation list \<Rightarrow> ExecState \<Rightarrow>
     ExecState option" where
  "executeOperations cfg categoryPolicies [] st = Some st"
| "executeOperations cfg categoryPolicies (operation # operations) st =
     (case executeOperation cfg categoryPolicies operation st of
        None \<Rightarrow> None
      | Some st' \<Rightarrow>
          if aborted st' \<noteq> None then Some st'
          else executeOperations cfg categoryPolicies operations st')"

definition executeProcessedArtifacts ::
  "ProcessedArtifact list \<Rightarrow> ResolvedConfig \<Rightarrow> FileOperation list \<Rightarrow>
     (string \<rightharpoonup> OverwritePolicy) \<Rightarrow> HandlerState option \<Rightarrow> World \<Rightarrow>
     ((error + RunResult) \<times> World) option" where
  "executeProcessedArtifacts plan cfg operations categoryPolicies onConflict w =
     (case executeOperations cfg categoryPolicies operations
             \<lparr>world = called ExecuteProcessedArtifacts w, handler = onConflict,
              result = \<lparr>written = 0, skipped = 0\<rparr>, aborted = None\<rparr> of
        None \<Rightarrow> None
      | Some st \<Rightarrow>
          Some ((case aborted st of Some e \<Rightarrow> Inl e | None \<Rightarrow> Inr (result st)), world st))"

section \<open>The two pipelines of \<^verbatim>\<open>index.ts\<close>\<close>

definition artifactDetailsHeading :: string where
  "artifactDetailsHeading = ''Artifact details:''"

definition promptUnavailableWarning :: string where
  "promptUnavailableWarning =
     ''Prompt mode unavailable; existing files will be skipped. Use --yes or --overwrite=force.''"

text \<open>
  \<^verbatim>\<open>handleDryRun\<close>: the exit code and the world after it. The working directory and the
  templates root of \<^verbatim>\<open>execOpts\<close> are fixed: paths are relative to them.
\<close>

definition handleDryRun :: "Templates \<Rightarrow> string \<Rightarrow> ResolvedConfig \<Rightarrow> World \<Rightarrow> int \<times> World" where
  "handleDryRun tpl manifestPath cfg w =
     (let w1 = called PlanFromFile w
      in case planFromFile tpl (fileSystem w1) manifestPath cfg of
           Inl e \<Rightarrow> (1, ioError (ErrorLine e) w1)
         | Inr plan \<Rightarrow>
             (let w2 = called BuildFileOperations w1;
                  operations = buildFileOperations tpl plan cfg (fileSystem w2);
                  w3 = called SummarizeCategories w2;
                  summaries = summarizeCategories operations;
                  w4 = printSummary summaries cfg w3;
                  w5 = ioLog (Heading artifactDetailsHeading) w4;
                  w6 = ioLog (ArtifactDetails plan) w5
              in (0, w6)))"

text \<open>
  \<^verbatim>\<open>runPlanExecution\<close>. \<open>None\<close>: the run waits for an input that never comes.
\<close>

definition runPlanExecution ::
  "Templates \<Rightarrow> string \<Rightarrow> ResolvedConfig \<Rightarrow> World \<Rightarrow> (int \<times> World) option" where
  "runPlanExecution tpl manifestPath cfg w =
     (let w1 = called PlanFromFile w
      in case planFromFile tpl (fileSystem w1) manifestPath cfg of
           Inl e \<Rightarrow> Some (1, ioError (ErrorLine e) w1)
         | Inr plan \<Rightarrow>
             (let w2 = called BuildFileOperations w1;
                  operations = buildFileOperations tpl plan cfg (fileSystem w2);
                  w3 = called SummarizeCategories w2;
                  summaries = summarizeCategories operations;
                  w4 = printSummary summaries cfg w3;
                  categoryPolicies =
                    (if effectiveOverwrite cfg = ForcePolicy then Map.empty
                     else determineCategoryPolicies summaries cfg);
                  w5 = (if effectiveOverwrite cfg = ForcePolicy then w4
                        else called DetermineCategoryPolicies w4);
                  onConflict = createConflictHandler (terminal w5) summaries (effectiveOverwrite cfg);
                  w6 = called CreateConflictHandler w5;
                  w7 = (if onConflict = None \<and> effectiveOverwrite cfg = PromptPolicy
                        then ioLog (Warning promptUnavailableWarning) w6 else w6)
              in case executeProcessedArtifacts plan cfg operations categoryPolicies onConflict w7 of
                   None \<Rightarrow> None
                 | Some (Inl e, w8) \<Rightarrow> Some (1, ioError (ErrorLine e) w8)
                 | Some (Inr res, w8) \<Rightarrow>
                     Some (0, printCompletionGuide (agent cfg)
                                (ioLog (SetupCompleted (written res) (skipped res)) w8))))"

text \<open>The last statements of \<^verbatim>\<open>runCli\<close>: the dry-run flag selects the pipeline.\<close>

definition runPipeline ::
  "bool \<Rightarrow> Templates \<Rightarrow> string \<Rightarrow> ResolvedConfig \<Rightarrow> World \<Rightarrow> (int \<times> World) option" where
  "runPipeline dryRun tpl manifestPath cfg w =
     (if dryRun then Some (handleDryRun tpl manifestPath cfg w)
      else runPlanExecution tpl manifestPath cfg w)"

section \<open>Notions used in the statements\<close>

text \<open>The \<^verbatim>\<open>remainingExisting.get(category) ?? 1\<close> of the handler.\<close>

definition remainingFor :: "HandlerState \<Rightarrow> string \<Rightarrow> int" where
  "remainingFor h c = (case remainingExisting h c of Some n \<Rightarrow> n | None \<Rightarrow> 1)"

text \<open>The choice prompt the handler shows for a conflict.\<close>

definition choicePromptFor :: "OverwritePolicy \<Rightarrow> ConflictInfo \<Rightarrow> Prompt" where
  "choicePromptFor pol info =
     ChoicePrompt (updateMessage info) (conflictChoices info)
       (min (if pol = ForcePolicy then 0 else 1) (length (conflictChoices info) - 1))"

text \<open>
  The data model of the spec gives the source-mode tag to the category entry: all conflicts
  of one category have the same source mode.
\<close>

definition sourceModePerCategory :: "ConflictInfo list \<Rightarrow> bool" where
  "sourceModePerCategory infos =
     list_all (\<lambda>x. list_all (\<lambda>y. ConflictInfo.category x = ConflictInfo.category y \<longrightarrow>
                                   ConflictInfo.sourceMode x = ConflictInfo.sourceMode y) infos) infos"

text \<open>The artifact descriptors of a manifest, in declaration order.\<close>

definition descriptors :: "Manifest \<Rightarrow> ArtifactDescriptor list" where
  "descriptors manifest = concat (map artifacts manifest)"

text \<open>
  The state in which \<^verbatim>\<open>runPlanExecution\<close> starts the executor, once the plan is there:
  the operations, the policy table and the world after the summary, the optional warning
  and the calls made so far.
\<close>

definition pipelineOperations ::
  "Templates \<Rightarrow> ProcessedArtifact list \<Rightarrow> ResolvedConfig \<Rightarrow> World \<Rightarrow> FileOperation list" where
  "pipelineOperations tpl plan cfg w = buildFileOperations tpl plan cfg (fileSystem w)"

definition pipelinePolicies ::
  "ResolvedConfig \<Rightarrow> FileOperation list \<Rightarrow> (string \<rightharpoonup> OverwritePolicy)" where
  "pipelinePolicies cfg operations =
     (if effectiveOverwrite cfg = ForcePolicy then Map.empty
      else determineCategoryPolicies (summarizeCategories operations) cfg)"

definition executorStart ::
  "ResolvedConfig \<Rightarrow> FileOperation list \<Rightarrow> World \<Rightarrow> ExecState" where
  "executorStart cfg operations w =
     (let summaries = summarizeCategories operations;
          w4 = printSummary summaries cfg
                 (called SummarizeCategories (called BuildFileOperations (called PlanFromFile w)));
          w5 = (if effectiveOverwrite cfg = ForcePolicy then w4
                else called DetermineCategoryPolicies w4);
          onConflict = createConflictHandler (terminal w5) summaries (effectiveOverwrite cfg);
          w6 = called CreateConflictHandler w5;
          w7 = (if onConflict = None \<and> effectiveOverwrite cfg = PromptPolicy
                then ioLog (Warning promptUnavailableWarning) w6 else w6)
      in \<lparr>world = called ExecuteProcessedArtifacts w7, handler = onConflict,
          result = \<lparr>written = 0, skipped = 0\<rparr>, aborted = None\<rparr>)"

text \<open>
  The call of \<^verbatim>\<open>executeProcessedArtifacts\<close> that \<^verbatim>\<open>runPlanExecution\<close> makes once the plan is
  there, with the arguments it builds. \<open>None\<close>: the call does not return; \<open>Inl\<close>: it throws.
\<close>

definition executorCall ::
  "Templates \<Rightarrow> ResolvedConfig \<Rightarrow> ProcessedArtifact list \<Rightarrow> World \<Rightarrow>
     ((error + RunResult) \<times> World) option" where
  "executorCall tpl cfg plan w =
     (let operations = pipelineOperations tpl plan cfg w;
          summaries = summarizeCategories operations;
          w4 = printSummary summaries cfg
                 (called SummarizeCategories (called BuildFileOperations (called PlanFromFile w)));
          w5 = (if effectiveOverwrite cfg = ForcePolicy then w4
                else called DetermineCategoryPolicies w4);
          onConflict = createConflictHandler (terminal w5) summaries (effectiveOverwrite cfg);
          w6 = called CreateConflictHandler w5;
          w7 = (if onConflict = None \<and> effectiveOverwrite cfg = PromptPolicy
                then ioLog (Warning promptUnavailableWarning) w6 else w6)
      in executeProcessedArtifacts plan cfg operations (pipelinePolicies cfg operations)
           onConflict w7)"

text \<open>The lines a run added to \<^verbatim>\<open>io.error\<close> and to \<^verbatim>\<open>io.log\<close>.\<close>

definition newErrors :: "World \<Rightarrow> World \<Rightarrow> LogLine list" where
  "newErrors w w' = drop (length (errored w)) (errored w')"

definition newLines :: "World \<Rightarrow> World \<Rightarrow> LogLine list" where
  "newLines w w' = drop (length (logged w)) (logged w')"

text \<open>The pipeline components a run called.\<close>

definition newCalls :: "World \<Rightarrow> World \<Rightarrow> Component list" where
  "newCalls w w' = drop (length (invoked w)) (invoked w')"

section \<open>Example inputs\<close>

definition joinPosix :: "string \<Rightarrow> string \<Rightarrow> string" where
  "joinPosix a b = a @ ''/'' @ b"

definition exampleHome :: string where
  "exampleHome = ''/home/dev''"

definition exampleGlobalConfig :: CCSddConfig where
  "exampleGlobalConfig =
     \<lparr>agentLayouts =
        Some [''cursor'' \<mapsto> \<lparr>commandsDirOv = Present (Some ''cmds''),
                               agentDirOv = Present (Some ''.custom''),
                               docFileOv = Absent\<rparr>,
              ''codex'' \<mapsto> \<lparr>commandsDirOv = Absent, agentDirOv = Absent,
                              docFileOv = Present None\<rparr>],
      global = Some True\<rparr>"

definition exampleManifest :: Manifest where
  "exampleManifest =
     [\<lparr>categoryId = ''commands'', sourceModeTag = ''template-text'',
       artifacts = [\<lparr>templateSource = ''a.md'', targetPattern = ''{{KIRO_DIR}}/a.md''\<rparr>,
                    \<lparr>templateSource = ''b.md'', targetPattern = ''{{KIRO_DIR}}/b.md''\<rparr>,
                    \<lparr>templateSource = ''c.md'', targetPattern = ''{{KIRO_DIR}}/c.md''\<rparr>]\<rparr>,
      \<lparr>categoryId = ''project-memory'', sourceModeTag = ''template-text'',
       artifacts = [\<lparr>templateSource = ''doc.md'', targetPattern = ''{{DOC_FILE}}''\<rparr>]\<rparr>]"

definition exampleTemplates :: Templates where
  "exampleTemplates =
     \<lparr>parseManifest = (\<lambda>manifestText. if manifestText = ''M'' then Some exampleManifest else None),
      render = (\<lambda>artifact. ''new '' @ sourcePath artifact)\<rparr>"

definition exampleFiles :: "string \<rightharpoonup> string" where
  "exampleFiles =
     map_of [(''m.json'', ''M''), (''.kiro/a.md'', ''old a''), (''.kiro/b.md'', ''old b''),
             (''.kiro/c.md'', ''old c''), (''DOC.md'', ''new doc.md'')]"

definition exampleConfig :: "OverwritePolicy \<Rightarrow> string option \<Rightarrow> ResolvedConfig" where
  "exampleConfig pol backup =
     \<lparr>agent = ''cursor'', effectiveOverwrite = pol, backupDir = backup,
      resolutionContext = [(''KIRO_DIR'', ''.kiro''), (''DOC_FILE'', ''DOC.md'')]\<rparr>"

definition exampleWorld :: "bool \<Rightarrow> UserInput list \<Rightarrow> string list \<Rightarrow> World" where
  "exampleWorld tty inputs locked =
     \<lparr>fileSystem = \<lparr>files = exampleFiles, unwritable = locked\<rparr>,
      terminal = \<lparr>interactive = tty, pending = inputs, shown = []\<rparr>,
      logged = [], errored = [], invoked = []\<rparr>"


definition exampleTerminal :: "UserInput list \<Rightarrow> Terminal" where
  "exampleTerminal inputs = \<lparr>interactive = True, pending = inputs, shown = []\<rparr>"

definition exampleHandler :: HandlerState where
  "exampleHandler =
     \<lparr>remainingExisting = mapFromEntries [(''commands'', 3), (''project-memory'', 2)],
      stickyDecisions = Map.empty\<rparr>"

definition exampleConflict :: "string \<Rightarrow> ConflictInfo" where
  "exampleConflict path =
     \<lparr>ConflictInfo.category = ''commands'', relTargetPath = path,
      ConflictInfo.sourceMode = ''template-text''\<rparr>"



definition exampleFileSystem :: FileSystem where
  "exampleFileSystem = \<lparr>files = exampleFiles, unwritable = []\<rparr>"

definition examplePlan :: "ProcessedArtifact list" where
  "examplePlan =
     [\<lparr>sourcePath = ''a.md'', targetPath = ''.kiro/a.md'',
       category = ''commands'', sourceMode = ''template-text''\<rparr>,
      \<lparr>sourcePath = ''b.md'', targetPath = ''.kiro/b.md'',
       category = ''commands'', sourceMode = ''template-text''\<rparr>,
      \<lparr>sourcePath = ''c.md'', targetPath = ''.kiro/c.md'',
       category = ''commands'', sourceMode = ''template-text''\<rparr>,
      \<lparr>sourcePath = ''doc.md'', targetPath = ''DOC.md'',
       category = ''project-memory'', sourceMode = ''template-text''\<rparr>]"

definition exampleOperations :: "FileOperation list" where
  "exampleOperations =
     buildFileOperations exampleTemplates examplePlan (exampleConfig PromptPolicy None)
       exampleFileSystem"

definition lockedWorld :: World where
  "lockedWorld = exampleWorld False [] [''bak/.kiro/b.md'']"



section \<open>Layout resolution under a global install\<close>

lemma agentList_cases:
  "a \<in> set agentList \<longleftrightarrow>
     a \<in> {''claude-code'', ''claude-code-agent'', ''codex'', ''cursor'', ''github-copilot'',
           ''gemini-cli'', ''windsurf'', ''antigravity'', ''qwen-code''}"
  by (simp add: agentList_def agentDefinitions_def)

lemma globalCommandsDir_mkDefinition:
  "globalCommandsDir (layout (mkDefinition l c g a d)) = g"
  by (simp add: mkDefinition_def)

lemma getAgentDefinition_known:
  assumes "a \<in> set agentList"
  shows "\<exists>d. getAgentDefinition a = Inr d \<and> globalCommandsDir (layout d) \<noteq> Some []
            \<and> (globalCommandsDir (layout d) = None \<longleftrightarrow> a \<in> {''github-copilot'', ''windsurf''})"
  using assms unfolding agentList_cases
  apply (elim insertE emptyE)
          apply (simp_all add: getAgentDefinition_def agentDefinitions_def globalCommandsDir_mkDefinition)
  done

lemma resolveAgentLayout_global_unfold:
  assumes "getAgentDefinition a = Inr d" and "global c = Some True"
  shows "resolveAgentLayout pj home a (Some c) =
          (case globalCommandsDir (layout d) of
             None \<Rightarrow> Inl (GlobalUnsupported (AgentDefinition.label d))
           | Some g \<Rightarrow>
               if g = [] then Inl (GlobalUnsupported (AgentDefinition.label d))
               else Inr ((spreadLayout (layout d) (overrideFor (Some c) a))
                          \<lparr>commandsDir :=
                             Some (if startsWith g ''~/'' then pj home (drop 2 g) else g)\<rparr>))"
proof -
  have g: "globalRequested (Some c)"
    using assms(2) by (simp add: globalRequested_def)
  show ?thesis
    unfolding resolveAgentLayout_def assms(1) Let_def
    by (cases "globalCommandsDir (layout d)") (simp_all add: g)
qed

text \<open>The merged fields, read from the table of the config.\<close>

lemma spreadLayout_agentDir:
  "agentDir (spreadLayout b (overrideFor (Some c) a)) =
     (case agentLayouts c of
        None \<Rightarrow> agentDir b
      | Some tbl \<Rightarrow>
          (case tbl a of
             None \<Rightarrow> agentDir b
           | Some ov \<Rightarrow> (case agentDirOv ov of Absent \<Rightarrow> agentDir b | Present v \<Rightarrow> v)))"
  by (simp add: spreadLayout_def overrideFor_def noOverride_def split: option.splits)

lemma spreadLayout_docFile:
  "docFile (spreadLayout b (overrideFor (Some c) a)) =
     (case agentLayouts c of
        None \<Rightarrow> docFile b
      | Some tbl \<Rightarrow>
          (case tbl a of
             None \<Rightarrow> docFile b
           | Some ov \<Rightarrow> (case docFileOv ov of Absent \<Rightarrow> docFile b | Present v \<Rightarrow> v)))"
  by (simp add: spreadLayout_def overrideFor_def noOverride_def split: option.splits)

text \<open>
  C10. For every agent of the registry and every config with the global flag set,
  \<^verbatim>\<open>resolveAgentLayout\<close> throws exactly when the agent's definition has no
  \<^verbatim>\<open>globalCommandsDir\<close>, which is the case for github-copilot and windsurf and for no other
  agent. When it returns, \<^verbatim>\<open>commandsDir\<close> is the global directory, a leading \<^verbatim>\<open>~/\<close> replaced
  by the home directory through \<^verbatim>\<open>path.join\<close>, whatever the override says; \<^verbatim>\<open>agentDir\<close> and
  \<^verbatim>\<open>docFile\<close> are the values of the agent's entry in the config's \<^verbatim>\<open>agentLayouts\<close> table
  where that entry has the key, and the base values of the registry otherwise.
\<close>

theorem resolveAgentLayout_global:
  assumes "a \<in> set agentList" and "global c = Some True"
  shows "\<exists>d. getAgentDefinition a = Inr d \<and>
          ((\<exists>e. resolveAgentLayout pj home a (Some c) = Inl e) \<longleftrightarrow>
              globalCommandsDir (layout d) = None) \<and>
          (globalCommandsDir (layout d) = None \<longleftrightarrow> a \<in> {''github-copilot'', ''windsurf''}) \<and>
          (\<forall>l. resolveAgentLayout pj home a (Some c) = Inr l \<longrightarrow>
             (\<exists>g. globalCommandsDir (layout d) = Some g \<and>
                commandsDir l = Some (if startsWith g ''~/'' then pj home (drop 2 g) else g)) \<and>
             agentDir l =
               (case agentLayouts c of
                  None \<Rightarrow> agentDir (layout d)
                | Some tbl \<Rightarrow>
                    (case tbl a of
                       None \<Rightarrow> agentDir (layout d)
                     | Some ov \<Rightarrow>
                         (case agentDirOv ov of
                            Absent \<Rightarrow> agentDir (layout d) | Present v \<Rightarrow> v))) \<and>
             docFile l =
               (case agentLayouts c of
                  None \<Rightarrow> docFile (layout d)
                | Some tbl \<Rightarrow>
                    (case tbl a of
                       None \<Rightarrow> docFile (layout d)
                     | Some ov \<Rightarrow>
                         (case docFileOv ov of
                            Absent \<Rightarrow> docFile (layout d) | Present v \<Rightarrow> v))))"
proof -
  from getAgentDefinition_known [OF assms(1)] obtain d where
    dd: "getAgentDefinition a = Inr d \<and> globalCommandsDir (layout d) \<noteq> Some []
            \<and> (globalCommandsDir (layout d) = None \<longleftrightarrow> a \<in> {''github-copilot'', ''windsurf''})" ..
  from dd have d: "getAgentDefinition a = Inr d" by (rule conjunct1)
  from dd have ne: "globalCommandsDir (layout d) \<noteq> Some []"
    by (elim conjE)
  from dd have iff: "globalCommandsDir (layout d) = None \<longleftrightarrow> a \<in> {''github-copilot'', ''windsurf''}"
    by (elim conjE)
  note r = resolveAgentLayout_global_unfold [OF d assms(2), of pj home]
  have fails: "(\<exists>e. resolveAgentLayout pj home a (Some c) = Inl e) \<longleftrightarrow>
                 globalCommandsDir (layout d) = None"
    using ne unfolding r by (cases "globalCommandsDir (layout d)") simp_all
  have ok: "(\<exists>g. globalCommandsDir (layout d) = Some g \<and>
                commandsDir l = Some (if startsWith g ''~/'' then pj home (drop 2 g) else g)) \<and>
             agentDir l =
               (case agentLayouts c of
                  None \<Rightarrow> agentDir (layout d)
                | Some tbl \<Rightarrow>
                    (case tbl a of
                       None \<Rightarrow> agentDir (layout d)
                     | Some ov \<Rightarrow>
                         (case agentDirOv ov of
                            Absent \<Rightarrow> agentDir (layout d) | Present v \<Rightarrow> v))) \<and>
             docFile l =
               (case agentLayouts c of
                  None \<Rightarrow> docFile (layout d)
                | Some tbl \<Rightarrow>
                    (case tbl a of
                       None \<Rightarrow> docFile (layout d)
                     | Some ov \<Rightarrow>
                         (case docFileOv ov of
                            Absent \<Rightarrow> docFile (layout d) | Present v \<Rightarrow> v)))"
    if "resolveAgentLayout pj home a (Some c) = Inr l" for l
  proof (cases "globalCommandsDir (layout d)")
    case None
    with that r show ?thesis by simp
  next
    case (Some g)
    with ne have "g \<noteq> []" by simp
    with that Some have l:
      "l = (spreadLayout (layout d) (overrideFor (Some c) a))
             \<lparr>commandsDir := Some (if startsWith g ''~/'' then pj home (drop 2 g) else g)\<rparr>"
      unfolding r by simp
    have 1: "\<exists>g. globalCommandsDir (layout d) = Some g \<and>
                commandsDir l = Some (if startsWith g ''~/'' then pj home (drop 2 g) else g)"
      unfolding l using Some by simp
    have 2: "agentDir l = agentDir (spreadLayout (layout d) (overrideFor (Some c) a))"
      and 3: "docFile l = docFile (spreadLayout (layout d) (overrideFor (Some c) a))"
      unfolding l by simp_all
    from 1 2 3 show ?thesis
      unfolding spreadLayout_agentDir spreadLayout_docFile by (intro conjI)
  qed
  show ?thesis
  proof (intro exI [of _ d] conjI allI impI)
    show "getAgentDefinition a = Inr d" by (rule d)
    show "(\<exists>e. resolveAgentLayout pj home a (Some c) = Inl e) \<longleftrightarrow>
              globalCommandsDir (layout d) = None" by (rule fails)
    show "globalCommandsDir (layout d) = None \<longleftrightarrow> a \<in> {''github-copilot'', ''windsurf''}"
      by (rule iff)
  qed (use ok in \<open>simp_all only:\<close>)
qed

lemma getAgentDefinition_cursor:
  "getAgentDefinition ''cursor'' =
     Inr (mkDefinition ''Cursor IDE'' ''.cursor/commands/kiro'' (Some ''~/.cursor/commands'')
            ''.cursor'' ''AGENTS.md'')"
  by (simp add: getAgentDefinition_def agentDefinitions_def)

theorem resolveAgentLayout_global_witness:
  "''windsurf'' \<in> set agentList \<and> ''cursor'' \<in> set agentList \<and>
   global exampleGlobalConfig = Some True \<and>
   (\<exists>e. resolveAgentLayout joinPosix exampleHome ''windsurf'' (Some exampleGlobalConfig) = Inl e) \<and>
   (\<exists>l. resolveAgentLayout joinPosix exampleHome ''cursor'' (Some exampleGlobalConfig) = Inr l \<and>
        commandsDir l = Some ''/home/dev/.cursor/commands'' \<and>
        agentDir l = Some ''.custom'' \<and>
        docFile l = Some ''AGENTS.md'')"
proof -
  let ?r = "resolveAgentLayout joinPosix exampleHome ''cursor'' (Some exampleGlobalConfig)"
  have w: "''windsurf'' \<in> set agentList" and c: "''cursor'' \<in> set agentList"
    by (simp_all add: agentList_def agentDefinitions_def)
  have g: "global exampleGlobalConfig = Some True"
    by (simp add: exampleGlobalConfig_def)
  have "(\<exists>e. resolveAgentLayout joinPosix exampleHome ''windsurf'' (Some exampleGlobalConfig) = Inl e)
          \<longleftrightarrow> ''windsurf'' \<in> {''github-copilot'', ''windsurf''}"
    using resolveAgentLayout_global [OF w g, of joinPosix exampleHome]
    by (elim exE conjE) (rule trans)
  then have 1: "\<exists>e. resolveAgentLayout joinPosix exampleHome ''windsurf'' (Some exampleGlobalConfig) = Inl e"
    by simp
  from resolveAgentLayout_global [OF c g, of joinPosix exampleHome] obtain d where
    d: "getAgentDefinition ''cursor'' = Inr d"
    and f: "(\<exists>e. ?r = Inl e) \<longleftrightarrow> globalCommandsDir (layout d) = None"
    and ok: "\<forall>l. ?r = Inr l \<longrightarrow>
             (\<exists>g. globalCommandsDir (layout d) = Some g \<and>
                commandsDir l = Some (if startsWith g ''~/'' then joinPosix exampleHome (drop 2 g) else g)) \<and>
             agentDir l =
               (case agentLayouts exampleGlobalConfig of
                  None \<Rightarrow> agentDir (layout d)
                | Some tbl \<Rightarrow>
                    (case tbl ''cursor'' of
                       None \<Rightarrow> agentDir (layout d)
                     | Some ov \<Rightarrow>
                         (case agentDirOv ov of
                            Absent \<Rightarrow> agentDir (layout d) | Present v \<Rightarrow> v))) \<and>
             docFile l =
               (case agentLayouts exampleGlobalConfig of
                  None \<Rightarrow> docFile (layout d)
                | Some tbl \<Rightarrow>
                    (case tbl ''cursor'' of
                       None \<Rightarrow> docFile (layout d)
                     | Some ov \<Rightarrow>
                         (case docFileOv ov of
                            Absent \<Rightarrow> docFile (layout d) | Present v \<Rightarrow> v)))"
    by (elim exE conjE)
  from d have dv: "d = mkDefinition ''Cursor IDE'' ''.cursor/commands/kiro''
                        (Some ''~/.cursor/commands'') ''.cursor'' ''AGENTS.md''"
    unfolding getAgentDefinition_cursor by simp
  have gd: "globalCommandsDir (layout d) = Some ''~/.cursor/commands''"
    and bd: "docFile (layout d) = Some ''AGENTS.md''"
    unfolding dv by (simp_all add: mkDefinition_def)
  from f gd have "\<not> (\<exists>e. ?r = Inl e)" by simp
  then obtain l where l: "?r = Inr l" by (cases ?r) auto
  from ok l have
    cd: "\<exists>g. globalCommandsDir (layout d) = Some g \<and>
            commandsDir l = Some (if startsWith g ''~/'' then joinPosix exampleHome (drop 2 g) else g)"
    and ad: "agentDir l =
               (case agentLayouts exampleGlobalConfig of
                  None \<Rightarrow> agentDir (layout d)
                | Some tbl \<Rightarrow>
                    (case tbl ''cursor'' of
                       None \<Rightarrow> agentDir (layout d)
                     | Some ov \<Rightarrow>
                         (case agentDirOv ov of
                            Absent \<Rightarrow> agentDir (layout d) | Present v \<Rightarrow> v)))"
    and df: "docFile l =
               (case agentLayouts exampleGlobalConfig of
                  None \<Rightarrow> docFile (layout d)
                | Some tbl \<Rightarrow>
                    (case tbl ''cursor'' of
                       None \<Rightarrow> docFile (layout d)
                     | Some ov \<Rightarrow>
                         (case docFileOv ov of
                            Absent \<Rightarrow> docFile (layout d) | Present v \<Rightarrow> v)))"
    by simp_all
  from cd gd have 2: "commandsDir l = Some ''/home/dev/.cursor/commands''"
    by (simp add: startsWith_def joinPosix_def exampleHome_def)
  from ad have 3: "agentDir l = Some ''.custom''"
    by (simp add: exampleGlobalConfig_def)
  from df bd have 4: "docFile l = Some ''AGENTS.md''"
    by (simp add: exampleGlobalConfig_def)
  from l 2 3 4 have "\<exists>l. ?r = Inr l \<and>
        commandsDir l = Some ''/home/dev/.cursor/commands'' \<and>
        agentDir l = Some ''.custom'' \<and>
        docFile l = Some ''AGENTS.md''"
    by (intro exI [of _ l] conjI)
  with w c g 1 show ?thesis by (intro conjI)
qed

text \<open>
  The outcomes, computed: an override of \<^verbatim>\<open>commandsDir\<close> is replaced by the global
  directory, an override of \<^verbatim>\<open>agentDir\<close> is kept, and an override key that is present with
  the value \<^verbatim>\<open>undefined\<close> replaces the base value.
\<close>

lemma resolveAgentLayout_cursor_example:
  "resolveAgentLayout joinPosix exampleHome ''cursor'' (Some exampleGlobalConfig) =
     Inr \<lparr>commandsDir = Some ''/home/dev/.cursor/commands'', agentDir = Some ''.custom'',
          docFile = Some ''AGENTS.md''\<rparr>"
  by (simp add: resolveAgentLayout_def getAgentDefinition_def agentDefinitions_def mkDefinition_def
      overrideFor_def exampleGlobalConfig_def spreadLayout_def globalRequested_def startsWith_def
      joinPosix_def exampleHome_def)

lemma resolveAgentLayout_undefined_example:
  "resolveAgentLayout joinPosix exampleHome ''codex'' (Some exampleGlobalConfig) =
     Inr \<lparr>commandsDir = Some ''/home/dev/.codex/prompts'', agentDir = Some ''.codex'',
          docFile = None\<rparr>"
  by (simp add: resolveAgentLayout_def getAgentDefinition_def agentDefinitions_def mkDefinition_def
      overrideFor_def exampleGlobalConfig_def spreadLayout_def globalRequested_def startsWith_def
      joinPosix_def exampleHome_def)

lemma resolveAgentLayout_windsurf_example:
  "resolveAgentLayout joinPosix exampleHome ''windsurf'' (Some exampleGlobalConfig) =
     Inl (GlobalUnsupported ''Windsurf IDE'')"
  by (simp add: resolveAgentLayout_def getAgentDefinition_def agentDefinitions_def mkDefinition_def
      overrideFor_def exampleGlobalConfig_def spreadLayout_def globalRequested_def)

section \<open>The conflict handler\<close>


lemma promptChoice_Some:
  assumes "promptChoice m cs k t = Some (d, t')"
  shows "d \<in> Choice.value ` set cs \<and>
         (\<exists>i. pending t = Select i # pending t') \<and>
         shown t' = shown t @ [ChoicePrompt m cs k] \<and> interactive t' = interactive t"
  using assms
  by (auto simp: promptChoice_def Let_def split: list.splits UserInput.splits if_splits)

lemma promptConfirm_Some:
  assumes "promptConfirm m b t = Some (r, t')"
  shows "pending t = Confirm r # pending t' \<and>
         shown t' = shown t @ [ConfirmPrompt m b] \<and> interactive t' = interactive t"
  using assms
  by (auto simp: promptConfirm_def split: list.splits UserInput.splits)

lemma conflictHandler_cached:
  assumes "stickyDecisions h (ConflictInfo.category info) = Some d"
  shows "conflictHandler pol info (h, t) = Some (d, h, t)"
  using assms by (simp add: conflictHandler_def)

lemma conflictHandler_fresh:
  assumes "stickyDecisions h (ConflictInfo.category info) = None"
  shows "conflictHandler pol info (h, t) =
     (case promptChoice (updateMessage info) (conflictChoices info)
             (min (if pol = ForcePolicy then 0 else 1) (length (conflictChoices info) - 1)) t of
        None \<Rightarrow> None
      | Some (decision, t1) \<Rightarrow>
          if remainingFor h (ConflictInfo.category info) > 1 then
            (case promptConfirm applyToRestMessage True t1 of
               None \<Rightarrow> None
             | Some (applyToRest, t2) \<Rightarrow>
                 Some (decision,
                       \<lparr>remainingExisting = (remainingExisting h)(ConflictInfo.category info \<mapsto>
                            max (remainingFor h (ConflictInfo.category info) - 1) 0),
                        stickyDecisions = (if applyToRest
                           then (stickyDecisions h)(ConflictInfo.category info \<mapsto> decision)
                           else stickyDecisions h)\<rparr>, t2))
          else Some (decision,
                     \<lparr>remainingExisting = (remainingExisting h)(ConflictInfo.category info \<mapsto>
                            max (remainingFor h (ConflictInfo.category info) - 1) 0),
                      stickyDecisions = stickyDecisions h\<rparr>, t1))"
  using assms
  by (simp add: conflictHandler_def Let_def remainingFor_def split: option.splits prod.splits)

lemma conflictHandler_prompted:
  assumes "stickyDecisions h (ConflictInfo.category info) = None"
    and "conflictHandler pol info (h, t) = Some (d, h', t')"
  shows "d \<in> Choice.value ` set (conflictChoices info)"
    and "remainingFor h (ConflictInfo.category info) \<le> 1 \<Longrightarrow>
           stickyDecisions h' = stickyDecisions h \<and> (\<exists>i. pending t = Select i # pending t') \<and>
           shown t' = shown t @ [choicePromptFor pol info]"
    and "remainingFor h (ConflictInfo.category info) > 1 \<Longrightarrow>
           (\<exists>i b. pending t = Select i # Confirm b # pending t' \<and>
              stickyDecisions h' = (if b then (stickyDecisions h)(ConflictInfo.category info \<mapsto> d)
                                    else stickyDecisions h)) \<and>
           shown t' = shown t @ [choicePromptFor pol info, ConfirmPrompt applyToRestMessage True]"
proof -
  let ?c = "ConflictInfo.category info"
  let ?k = "min (if pol = ForcePolicy then 0 else 1) (length (conflictChoices info) - 1)"
  note u = assms(2) [unfolded conflictHandler_fresh [OF assms(1)]]
  obtain t1 where
    pc: "promptChoice (updateMessage info) (conflictChoices info) ?k t = Some (d, t1)"
    and rest: "(if remainingFor h ?c > 1 then
            (case promptConfirm applyToRestMessage True t1 of
               None \<Rightarrow> None
             | Some (applyToRest, t2) \<Rightarrow>
                 Some (d,
                       \<lparr>remainingExisting = (remainingExisting h)(?c \<mapsto>
                            max (remainingFor h ?c - 1) 0),
                        stickyDecisions = (if applyToRest
                           then (stickyDecisions h)(?c \<mapsto> d)
                           else stickyDecisions h)\<rparr>, t2))
          else Some (d,
                     \<lparr>remainingExisting = (remainingExisting h)(?c \<mapsto>
                            max (remainingFor h ?c - 1) 0),
                      stickyDecisions = stickyDecisions h\<rparr>, t1)) = Some (d, h', t')"
  proof (cases "promptChoice (updateMessage info) (conflictChoices info) ?k t")
    case None
    with u show ?thesis by simp
  next
    case (Some r)
    obtain d1 t1 where r: "r = (d1, t1)" by (cases r)
    have "d1 = d" using u unfolding Some r
      by (simp split: if_splits option.splits prod.splits)
    with u Some r that show ?thesis by simp
  qed
  note c = promptChoice_Some [OF pc]
  from c show "d \<in> Choice.value ` set (conflictChoices info)" by simp
  {
    assume le: "remainingFor h ?c \<le> 1"
    with rest have "t' = t1" "stickyDecisions h' = stickyDecisions h"
      by auto
    with c show "stickyDecisions h' = stickyDecisions h \<and> (\<exists>i. pending t = Select i # pending t') \<and>
           shown t' = shown t @ [choicePromptFor pol info]"
      by (simp add: choicePromptFor_def)
  }
  {
    assume gt: "remainingFor h ?c > 1"
    have "\<exists>b. promptConfirm applyToRestMessage True t1 = Some (b, t') \<and>
       stickyDecisions h' = (if b then (stickyDecisions h)(?c \<mapsto> d) else stickyDecisions h)"
    proof (cases "promptConfirm applyToRestMessage True t1")
      case None
      with rest gt show ?thesis by simp
    next
      case (Some r)
      obtain b t2 where r: "r = (b, t2)" by (cases r)
      from rest gt show ?thesis unfolding Some r by auto
    qed
    then obtain b where
      cf: "promptConfirm applyToRestMessage True t1 = Some (b, t')"
      and st: "stickyDecisions h' = (if b then (stickyDecisions h)(?c \<mapsto> d)
                                    else stickyDecisions h)"
      by blast
    note k = promptConfirm_Some [OF cf]
    from c obtain i where i: "pending t = Select i # pending t1" by blast
    from i k st have "pending t = Select i # Confirm b # pending t' \<and>
              stickyDecisions h' = (if b then (stickyDecisions h)(?c \<mapsto> d)
                                    else stickyDecisions h)"
      by simp
    moreover from c k have "shown t' = shown t @ [choicePromptFor pol info, ConfirmPrompt applyToRestMessage True]"
      by (simp add: choicePromptFor_def)
    ultimately show "(\<exists>i b. pending t = Select i # Confirm b # pending t' \<and>
              stickyDecisions h' = (if b then (stickyDecisions h)(?c \<mapsto> d)
                                    else stickyDecisions h)) \<and>
           shown t' = shown t @ [choicePromptFor pol info, ConfirmPrompt applyToRestMessage True]"
      by blast
  }
qed

lemma handleConflicts_cached:
  assumes "stickyDecisions h c = Some d"
    and "\<forall>x\<in>set infos. ConflictInfo.category x = c"
  shows "handleConflicts pol infos (h, t) = Some (replicate (length infos) d, h, t)"
  using assms(2)
proof (induction infos)
  case Nil
  show ?case by simp
next
  case (Cons x xs)
  from Cons.prems have "stickyDecisions h (ConflictInfo.category x) = Some d"
    using assms(1) by simp
  then have "conflictHandler pol x (h, t) = Some (d, h, t)"
    by (rule conflictHandler_cached)
  moreover from Cons have "handleConflicts pol xs (h, t) = Some (replicate (length xs) d, h, t)"
    by simp
  ultimately show ?case by simp
qed

lemma conflictHandler_keeps_cached:
  assumes "stickyDecisions h c = Some d"
    and "conflictHandler pol info (h, t) = Some (d', h', t')"
  shows "stickyDecisions h' c = Some d"
proof (cases "stickyDecisions h (ConflictInfo.category info)")
  case (Some cached)
  from assms(2) have "h' = h"
    unfolding conflictHandler_cached [OF Some] by simp
  with assms(1) show ?thesis by simp
next
  case None
  with assms(1) have ne: "ConflictInfo.category info \<noteq> c" by auto
  note p = conflictHandler_prompted [OF None assms(2)]
  have "stickyDecisions h' = stickyDecisions h \<or>
        stickyDecisions h' = (stickyDecisions h)(ConflictInfo.category info \<mapsto> d')"
  proof (cases "remainingFor h (ConflictInfo.category info) > 1")
    case True
    from p(3) [OF True] show ?thesis by auto
  next
    case False
    then have "remainingFor h (ConflictInfo.category info) \<le> 1" by simp
    from p(2) [OF this] show ?thesis by simp
  qed
  with assms(1) ne show ?thesis by auto
qed

text \<open>
  With a decision cached for category \<open>c\<close>, the conflicts of \<open>c\<close> in any later sequence get
  that decision, and the handler's maps, the prompts shown and the inputs read are those
  of the sequence without the conflicts of \<open>c\<close>.
\<close>

lemma handleConflicts_cached_category:
  assumes "stickyDecisions h c = Some d"
    and "handleConflicts pol infos (h, t) = Some (ds, s')"
  shows "(\<forall>i<length infos. ConflictInfo.category (infos ! i) = c \<longrightarrow> ds ! i = d) \<and>
         (\<exists>ds'. handleConflicts pol (filter (\<lambda>x. ConflictInfo.category x \<noteq> c) infos) (h, t) =
                   Some (ds', s'))"
  using assms
proof (induction infos arbitrary: h t ds)
  case Nil
  then show ?case by simp
next
  case (Cons x xs)
  from Cons.prems(2) obtain d1 h1 t1 rest where
    call: "conflictHandler pol x (h, t) = Some (d1, h1, t1)"
    and tail: "handleConflicts pol xs (h1, t1) = Some (rest, s')"
    and ds: "ds = d1 # rest"
    by (auto split: option.splits prod.splits)
  from conflictHandler_keeps_cached [OF Cons.prems(1) call]
  have keep: "stickyDecisions h1 c = Some d" .
  note ih = Cons.IH [OF keep tail]
  from ih obtain ds' where
    f: "handleConflicts pol (filter (\<lambda>x. ConflictInfo.category x \<noteq> c) xs) (h1, t1) = Some (ds', s')"
    by blast
  show ?case
  proof (cases "ConflictInfo.category x = c")
    case True
    with Cons.prems(1) have "stickyDecisions h (ConflictInfo.category x) = Some d" by simp
    from call [unfolded conflictHandler_cached [OF this]]
    have e: "d1 = d" "h1 = h" "t1 = t" by simp_all
    have "\<forall>i<length (x # xs). ConflictInfo.category ((x # xs) ! i) = c \<longrightarrow> ds ! i = d"
      using ih e ds by (auto simp: nth_Cons split: nat.splits)
    moreover have "\<exists>ds'. handleConflicts pol (filter (\<lambda>x. ConflictInfo.category x \<noteq> c) (x # xs)) (h, t) =
                   Some (ds', s')"
      using f True e by auto
    ultimately show ?thesis by blast
  next
    case False
    have "\<forall>i<length (x # xs). ConflictInfo.category ((x # xs) ! i) = c \<longrightarrow> ds ! i = d"
      using ih False ds by (auto simp: nth_Cons split: nat.splits)
    moreover have "handleConflicts pol (filter (\<lambda>x. ConflictInfo.category x \<noteq> c) (x # xs)) (h, t) =
                   Some (d1 # ds', s')"
      using f False call by simp
    ultimately show ?thesis by blast
  qed
qed

text \<open>
  C2. When the first conflict of a category is prompted, the user answers and then says yes
  to applying the choice to the remaining files of the category, every later conflict of
  that category gets the first decision, and the terminal is left as it was: no prompt is
  shown and no input is read. When conflicts of other categories come in between, the
  conflicts of the category still get the first decision, and the prompts shown are those
  of the other conflicts alone.
\<close>

theorem sticky_decision_reused:
  assumes "stickyDecisions h (ConflictInfo.category info) = None"
    and "conflictHandler pol info (h, t) = Some (d, h1, t1)"
    and "pending t = Select i # Confirm True # pending t1"
  shows "(\<forall>infos. (\<forall>x\<in>set infos. ConflictInfo.category x = ConflictInfo.category info) \<longrightarrow>
            handleConflicts pol infos (h1, t1) = Some (replicate (length infos) d, h1, t1)) \<and>
         (\<forall>infos ds s'. handleConflicts pol infos (h1, t1) = Some (ds, s') \<longrightarrow>
            (\<forall>k<length infos. ConflictInfo.category (infos ! k) = ConflictInfo.category info \<longrightarrow>
                ds ! k = d) \<and>
            (\<exists>ds'. handleConflicts pol
                      (filter (\<lambda>x. ConflictInfo.category x \<noteq> ConflictInfo.category info) infos)
                      (h1, t1) = Some (ds', s')))"
proof -
  note p = conflictHandler_prompted [OF assms(1) assms(2)]
  have gt: "remainingFor h (ConflictInfo.category info) > 1"
  proof (rule ccontr)
    assume "\<not> remainingFor h (ConflictInfo.category info) > 1"
    then have "remainingFor h (ConflictInfo.category info) \<le> 1" by simp
    from p(2) [OF this] obtain j where "pending t = Select j # pending t1" by blast
    with assms(3) have "Confirm True # pending t1 = pending t1" by simp
    then have "length (Confirm True # pending t1) = length (pending t1)" by simp
    then show False by simp
  qed
  from p(3) [OF gt] obtain j b where
    "pending t = Select j # Confirm b # pending t1"
    and st: "stickyDecisions h1 = (if b then (stickyDecisions h)(ConflictInfo.category info \<mapsto> d)
                                   else stickyDecisions h)"
    by blast
  with assms(3) have "b" by simp
  with st have c: "stickyDecisions h1 (ConflictInfo.category info) = Some d" by simp
  have 1: "\<forall>infos. (\<forall>x\<in>set infos. ConflictInfo.category x = ConflictInfo.category info) \<longrightarrow>
            handleConflicts pol infos (h1, t1) = Some (replicate (length infos) d, h1, t1)"
    using handleConflicts_cached [OF c] by blast
  have 2: "\<forall>infos ds s'. handleConflicts pol infos (h1, t1) = Some (ds, s') \<longrightarrow>
            (\<forall>k<length infos. ConflictInfo.category (infos ! k) = ConflictInfo.category info \<longrightarrow>
                ds ! k = d) \<and>
            (\<exists>ds'. handleConflicts pol
                      (filter (\<lambda>x. ConflictInfo.category x \<noteq> ConflictInfo.category info) infos)
                      (h1, t1) = Some (ds', s'))"
    using handleConflicts_cached_category [OF c] by blast
  from 1 2 show ?thesis by (rule conjI)
qed


theorem sticky_decision_reused_witness:
  "\<exists>h1 t1.
     stickyDecisions exampleHandler (ConflictInfo.category (exampleConflict ''a.md'')) = None \<and>
     conflictHandler PromptPolicy (exampleConflict ''a.md'')
        (exampleHandler, exampleTerminal [Select 0, Confirm True]) = Some (Overwrite, h1, t1) \<and>
     pending (exampleTerminal [Select 0, Confirm True]) = Select 0 # Confirm True # pending t1 \<and>
     handleConflicts PromptPolicy [exampleConflict ''b.md'', exampleConflict ''c.md''] (h1, t1) =
       Some ([Overwrite, Overwrite], h1, t1) \<and>
     length (shown t1) = 2"
proof -
  let ?t = "exampleTerminal [Select 0, Confirm True]"
  have n: "stickyDecisions exampleHandler (ConflictInfo.category (exampleConflict ''a.md'')) = None"
    by (simp add: exampleHandler_def)
  have "\<exists>h1 t1. conflictHandler PromptPolicy (exampleConflict ''a.md'') (exampleHandler, ?t) =
                   Some (Overwrite, h1, t1) \<and> pending t1 = [] \<and> length (shown t1) = 2"
    unfolding conflictHandler_fresh [OF n]
    by (simp add: promptChoice_def promptConfirm_def exampleTerminal_def remainingFor_def
        exampleHandler_def mapFromEntries_def exampleConflict_def conflictChoices_def
        overwriteChoice_def)
  then obtain h1 t1 where
    call: "conflictHandler PromptPolicy (exampleConflict ''a.md'') (exampleHandler, ?t) =
             Some (Overwrite, h1, t1)"
    and p: "pending t1 = []" and l: "length (shown t1) = 2"
    by blast
  have o: "pending ?t = Select 0 # Confirm True # pending t1"
    using p by (simp add: exampleTerminal_def)
  have s: "\<forall>x\<in>set [exampleConflict ''b.md'', exampleConflict ''c.md''].
             ConflictInfo.category x = ConflictInfo.category (exampleConflict ''a.md'')"
    by (simp add: exampleConflict_def)
  from sticky_decision_reused [OF n call o, THEN conjunct1, THEN spec, THEN mp, OF s]
  have "handleConflicts PromptPolicy [exampleConflict ''b.md'', exampleConflict ''c.md''] (h1, t1) =
          Some ([Overwrite, Overwrite], h1, t1)"
    by (simp add: numeral_2_eq_2)
  with n call o l show ?thesis by blast
qed

text \<open>
  The scenario of the spec, through the whole pipeline: three conflicting files in one
  category, the user selects overwrite and applies it to the rest. Two prompts are shown
  (the choice and the confirmation), and the three files are overwritten.
\<close>

lemma three_conflicts_overwritten_example:
  "(case runPlanExecution exampleTemplates ''m.json'' (exampleConfig PromptPolicy None)
           (exampleWorld True [Select 0, Confirm True] []) of
      None \<Rightarrow> None
    | Some (code, w) \<Rightarrow>
        Some (code, map (files (fileSystem w)) [''.kiro/a.md'', ''.kiro/b.md'', ''.kiro/c.md''],
              length (shown (terminal w)), pending (terminal w), last (butlast (logged w)))) =
   Some (0, [Some ''new a.md'', Some ''new b.md'', Some ''new c.md''], 2, [], SetupCompleted 3 0)"
  by code_simp

section \<open>The append choice\<close>

lemma append_offered_iff:
  "Append \<in> Choice.value ` set (conflictChoices info) \<longleftrightarrow> appendAllowed info"
  by (simp add: conflictChoices_def overwriteChoice_def skipChoice_def appendChoice_def)

lemma appendAllowed_iff:
  "appendAllowed info \<longleftrightarrow>
     ConflictInfo.category info = ''project-memory'' \<and> ConflictInfo.sourceMode info \<noteq> ''template-json''"
  by (simp add: appendAllowed_def projectMemory_def templateJson_def)

text \<open>
  The invariant of the sticky table: a cached append belongs to the project-memory
  category, and, when \<open>u\<close> holds, to no conflict of \<open>X\<close> in the structured form.
\<close>

lemma conflictHandler_append_invariant:
  assumes inv: "\<forall>c. stickyDecisions h c = Some Append \<longrightarrow>
                  c = projectMemory \<and>
                  (u \<longrightarrow> (\<forall>y\<in>X. ConflictInfo.category y = c \<longrightarrow> ConflictInfo.sourceMode y \<noteq> templateJson))"
    and uni: "u \<longrightarrow> (\<forall>y\<in>X. ConflictInfo.category y = ConflictInfo.category info \<longrightarrow>
                        ConflictInfo.sourceMode y = ConflictInfo.sourceMode info)"
    and call: "conflictHandler pol info (h, t) = Some (d, h', t')"
    and mem: "info \<in> X"
  shows "(\<forall>c. stickyDecisions h' c = Some Append \<longrightarrow>
                  c = projectMemory \<and>
                  (u \<longrightarrow> (\<forall>y\<in>X. ConflictInfo.category y = c \<longrightarrow> ConflictInfo.sourceMode y \<noteq> templateJson))) \<and>
         (d = Append \<longrightarrow> ConflictInfo.category info = projectMemory \<and>
                  (u \<longrightarrow> ConflictInfo.sourceMode info \<noteq> templateJson))"
proof (cases "stickyDecisions h (ConflictInfo.category info)")
  case (Some cached)
  from call have "d = cached" "h' = h"
    unfolding conflictHandler_cached [OF Some] by simp_all
  with Some inv mem show ?thesis by blast
next
  case None
  note p = conflictHandler_prompted [OF None call]
  have d: "d = Append \<longrightarrow> appendAllowed info"
    using p(1) append_offered_iff by blast
  have cases: "stickyDecisions h' = stickyDecisions h \<or>
               stickyDecisions h' = (stickyDecisions h)(ConflictInfo.category info \<mapsto> d)"
  proof (cases "remainingFor h (ConflictInfo.category info) > 1")
    case True
    from p(3) [OF True] show ?thesis by auto
  next
    case False
    then have "remainingFor h (ConflictInfo.category info) \<le> 1" by simp
    from p(2) [OF this] show ?thesis by simp
  qed
  have new: "d = Append \<longrightarrow> ConflictInfo.category info = projectMemory \<and>
       (u \<longrightarrow> (\<forall>y\<in>X. ConflictInfo.category y = ConflictInfo.category info \<longrightarrow>
                   ConflictInfo.sourceMode y \<noteq> templateJson))"
    using d uni by (auto simp: appendAllowed_def)
  from cases show ?thesis
  proof
    assume "stickyDecisions h' = stickyDecisions h"
    with inv new mem show ?thesis by auto
  next
    assume "stickyDecisions h' = (stickyDecisions h)(ConflictInfo.category info \<mapsto> d)"
    with inv new mem show ?thesis by (auto split: if_splits)
  qed
qed

lemma handleConflicts_length:
  "handleConflicts pol infos s = Some (ds, s') \<Longrightarrow> length ds = length infos"
  by (induction infos arbitrary: s ds) (auto split: option.splits prod.splits)

lemma handleConflicts_append_invariant:
  assumes "\<forall>c. stickyDecisions h c = Some Append \<longrightarrow>
                  c = projectMemory \<and>
                  (u \<longrightarrow> (\<forall>y\<in>X. ConflictInfo.category y = c \<longrightarrow> ConflictInfo.sourceMode y \<noteq> templateJson))"
    and "u \<longrightarrow> (\<forall>x\<in>X. \<forall>y\<in>X. ConflictInfo.category y = ConflictInfo.category x \<longrightarrow>
                        ConflictInfo.sourceMode y = ConflictInfo.sourceMode x)"
    and "handleConflicts pol infos (h, t) = Some (ds, s')"
    and "set infos \<subseteq> X"
    and "i < length infos"
    and "ds ! i = Append"
  shows "ConflictInfo.category (infos ! i) = projectMemory \<and>
         (u \<longrightarrow> ConflictInfo.sourceMode (infos ! i) \<noteq> templateJson)"
  using assms(1,3-6)
proof (induction infos arbitrary: h t ds i)
  case Nil
  then show ?case by simp
next
  case (Cons x xs)
  from Cons.prems(2) obtain d h1 t1 rest where
    call: "conflictHandler pol x (h, t) = Some (d, h1, t1)"
    and tail: "handleConflicts pol xs (h1, t1) = Some (rest, s')"
    and ds: "ds = d # rest"
    by (auto split: option.splits prod.splits)
  from Cons.prems(3) have x: "x \<in> X" and xs: "set xs \<subseteq> X" by simp_all
  from assms(2) x have uni: "u \<longrightarrow> (\<forall>y\<in>X. ConflictInfo.category y = ConflictInfo.category x \<longrightarrow>
                        ConflictInfo.sourceMode y = ConflictInfo.sourceMode x)"
    by blast
  note step = conflictHandler_append_invariant [OF Cons.prems(1) uni call x]
  show ?case
  proof (cases i)
    case 0
    with Cons.prems(5) ds have "d = Append" by simp
    with step 0 show ?thesis by simp
  next
    case (Suc j)
    with Cons.prems(4,5) ds have "j < length xs" "rest ! j = Append" by simp_all
    from Cons.IH [OF conjunct1 [OF step] tail xs this] Suc show ?thesis by simp
  qed
qed

lemma createConflictHandler_Some:
  "createConflictHandler t summaries pol = Some h \<Longrightarrow> stickyDecisions h = Map.empty \<and> interactive t"
  by (auto simp: createConflictHandler_def isInteractive_def split: if_splits)

lemma append_choice_offered:
  "Append \<in> Choice.value ` set (conflictChoices info) \<longleftrightarrow>
      ConflictInfo.category info = ''project-memory'' \<and>
      ConflictInfo.sourceMode info \<noteq> ''template-json''"
  unfolding append_offered_iff appendAllowed_iff ..

lemma prompted_decision_offered:
  assumes n: "stickyDecisions h (ConflictInfo.category info) = None"
    and c: "conflictHandler pol info (h, t) = Some (d, h', t')"
  shows "d \<in> Choice.value ` set (conflictChoices info) \<and>
         shown t' ! length (shown t) = choicePromptFor pol info"
proof -
  note p = conflictHandler_prompted [OF n c]
  have "shown t' ! length (shown t) = choicePromptFor pol info"
  proof (cases "remainingFor h (ConflictInfo.category info) > 1")
    case True
    from p(3) [OF True] have "shown t' = shown t @ [choicePromptFor pol info, ConfirmPrompt applyToRestMessage True]"
      by (rule conjunct2)
    then show ?thesis by (simp add: nth_append)
  next
    case False
    then have "remainingFor h (ConflictInfo.category info) \<le> 1" by simp
    from p(2) [OF this] have "shown t' = shown t @ [choicePromptFor pol info]"
      by (elim conjE)
    then show ?thesis by (simp add: nth_append)
  qed
  with p(1) show ?thesis by (rule conjI)
qed

lemma returned_append_allowed:
  assumes cr: "createConflictHandler t0 summaries pol = Some h0"
    and run: "handleConflicts pol infos (h0, t0) = Some (ds, s')"
    and i: "i < length infos" and ap: "ds ! i = Append"
  shows "ConflictInfo.category (infos ! i) = projectMemory \<and>
      (sourceModePerCategory infos \<longrightarrow> ConflictInfo.sourceMode (infos ! i) \<noteq> templateJson)"
proof -
  from cr have e: "stickyDecisions h0 = Map.empty"
    using createConflictHandler_Some by blast
  have inv: "\<forall>c. stickyDecisions h0 c = Some Append \<longrightarrow>
                  c = projectMemory \<and>
                  (sourceModePerCategory infos \<longrightarrow>
                     (\<forall>y\<in>set infos. ConflictInfo.category y = c \<longrightarrow> ConflictInfo.sourceMode y \<noteq> templateJson))"
    by (simp add: e)
  have uni: "sourceModePerCategory infos \<longrightarrow>
       (\<forall>x\<in>set infos. \<forall>y\<in>set infos. ConflictInfo.category y = ConflictInfo.category x \<longrightarrow>
                        ConflictInfo.sourceMode y = ConflictInfo.sourceMode x)"
    unfolding sourceModePerCategory_def list_all_iff by metis
  show ?thesis
    by (rule handleConflicts_append_invariant [OF inv uni run subset_refl i ap])
qed


section \<open>Category policies\<close>

lemma foldl_entries:
  "foldl (\<lambda>m (k, v). m(k \<mapsto> v)) m0 entries = m0 ++ map_of (rev entries)"
proof (induction entries arbitrary: m0)
  case Nil
  show ?case by simp
next
  case (Cons e es)
  obtain k v where e: "e = (k, v)" by (cases e)
  have "foldl (\<lambda>m (k, v). m(k \<mapsto> v)) m0 (e # es) =
          foldl (\<lambda>m (k, v). m(k \<mapsto> v)) (m0(k \<mapsto> v)) es"
    unfolding e by simp
  also have "\<dots> = (m0(k \<mapsto> v)) ++ map_of (rev es)"
    by (rule Cons.IH)
  also have "\<dots> = m0 ++ (map_of [(k, v)] ++ map_of (rev es))"
    by (simp add: map_add_assoc [symmetric])
  also have "\<dots> = m0 ++ map_of (rev (e # es))"
    unfolding e by simp
  finally show ?case .
qed

lemma mapFromEntries_tabulate:
  "mapFromEntries (map (\<lambda>x. (key x, val x)) xs) k =
     (case find (\<lambda>x. key x = k) (rev xs) of None \<Rightarrow> None | Some x \<Rightarrow> Some (val x))"
proof -
  have "map_of (map (\<lambda>x. (key x, val x)) ys) k =
          (case find (\<lambda>x. key x = k) ys of None \<Rightarrow> None | Some x \<Rightarrow> Some (val x))" for ys
    by (induction ys) auto
  from this [of "rev xs"] show ?thesis
    by (simp add: mapFromEntries_def foldl_entries rev_map)
qed

lemma find_summary:
  assumes "c \<in> set cs"
  shows "\<exists>s. find (\<lambda>s. CategorySummary.category s = c) (rev (map (summarizeCategory operations) cs)) = Some s
             \<and> s = summarizeCategory operations c"
proof -
  have "\<exists>s. find (\<lambda>s. CategorySummary.category s = c) (map (summarizeCategory operations) ys) = Some s
             \<and> s = summarizeCategory operations c" if "c \<in> set ys" for ys
    using that by (induction ys) (auto simp: summarizeCategory_def)
  from this [of "rev cs"] assms show ?thesis by (simp add: rev_map)
qed

lemma determineCategoryPolicies_lookup:
  assumes "c \<in> ProcessedArtifact.category ` set operations"
  shows "determineCategoryPolicies (summarizeCategories operations) cfg c =
           Some (categoryPolicy (effectiveOverwrite cfg) (summarizeCategory operations c))"
proof -
  from assms have "c \<in> set (rev (remdups (rev (map ProcessedArtifact.category operations))))"
    by simp
  from find_summary [OF this, of operations] show ?thesis
    unfolding determineCategoryPolicies_def summarizeCategories_def mapFromEntries_tabulate
    by auto
qed

lemma conflicting_count:
  assumes "\<forall>x\<in>set xs. FileOperation.identical x \<longrightarrow> FileOperation.existing x"
  shows "countWhere FileOperation.existing xs - countWhere FileOperation.identical xs =
           countWhere conflicting xs"
  using assms by (induction xs) (auto simp: countWhere_def conflicting_def)

lemma countWhere_zero: "countWhere p xs = 0 \<longleftrightarrow> (\<forall>x\<in>set xs. \<not> p x)"
  by (simp add: countWhere_def filter_empty_conv)

lemma buildFileOperations_identical_existing:
  "x \<in> set (buildFileOperations tpl plan cfg fs) \<Longrightarrow>
     FileOperation.identical x \<Longrightarrow> FileOperation.existing x"
  by (auto simp: buildFileOperations_def buildFileOperation_def Let_def)

lemma summary_no_conflict:
  assumes "\<forall>x\<in>set operations. FileOperation.identical x \<longrightarrow> FileOperation.existing x"
  shows "CategorySummary.existing (summarizeCategory operations c)
           = CategorySummary.identical (summarizeCategory operations c) \<longleftrightarrow>
         \<not> (\<exists>x\<in>set operations. ProcessedArtifact.category x = c \<and> conflicting x)"
proof -
  from assms have "\<forall>x\<in>set (inCategory c operations). FileOperation.identical x \<longrightarrow> FileOperation.existing x"
    by (simp add: inCategory_def)
  from conflicting_count [OF this]
  have "countWhere FileOperation.existing (inCategory c operations)
          = countWhere FileOperation.identical (inCategory c operations) \<longleftrightarrow>
        countWhere conflicting (inCategory c operations) = 0"
    by linarith
  then show ?thesis
    by (auto simp: summarizeCategory_def countWhere_zero inCategory_def)
qed

text \<open>
  C1. For the operations the builder produces and every category among them, the policy
  the executor runs the category under, from the table \<^verbatim>\<open>runPlanExecution\<close> passes, is:
  force under global force, skip under global skip, and under global prompt it is prompt
  when the category has a conflicting file (existing and not identical) and skip when it
  has none.
\<close>

theorem category_policy_table:
  assumes "operations = buildFileOperations tpl plan cfg fs"
    and "c \<in> ProcessedArtifact.category ` set operations"
  shows "policyFor
           (if effectiveOverwrite cfg = ForcePolicy then Map.empty
            else determineCategoryPolicies (summarizeCategories operations) cfg) cfg c =
         (case effectiveOverwrite cfg of
            ForcePolicy \<Rightarrow> ForcePolicy
          | SkipPolicy \<Rightarrow> SkipPolicy
          | PromptPolicy \<Rightarrow>
              if (\<exists>x\<in>set operations. ProcessedArtifact.category x = c \<and> conflicting x)
              then PromptPolicy else SkipPolicy)"
proof (cases "effectiveOverwrite cfg")
  case ForcePolicy
  then show ?thesis by (simp add: policyFor_def)
next
  case SkipPolicy
  then show ?thesis
    by (simp add: policyFor_def determineCategoryPolicies_lookup [OF assms(2)] categoryPolicy_def)
next
  case PromptPolicy
  have inv: "\<forall>x\<in>set operations. FileOperation.identical x \<longrightarrow> FileOperation.existing x"
    unfolding assms(1) using buildFileOperations_identical_existing by blast
  from PromptPolicy show ?thesis
    by (simp add: policyFor_def determineCategoryPolicies_lookup [OF assms(2)] categoryPolicy_def
        summary_no_conflict [OF inv])
qed

lemma exampleOperations_value:
  "exampleOperations =
     [\<lparr>sourcePath = ''a.md'', targetPath = ''.kiro/a.md'', category = ''commands'',
       sourceMode = ''template-text'', existing = True, identical = False,
       content = ''new a.md''\<rparr>,
      \<lparr>sourcePath = ''b.md'', targetPath = ''.kiro/b.md'', category = ''commands'',
       sourceMode = ''template-text'', existing = True, identical = False,
       content = ''new b.md''\<rparr>,
      \<lparr>sourcePath = ''c.md'', targetPath = ''.kiro/c.md'', category = ''commands'',
       sourceMode = ''template-text'', existing = True, identical = False,
       content = ''new c.md''\<rparr>,
      \<lparr>sourcePath = ''doc.md'', targetPath = ''DOC.md'', category = ''project-memory'',
       sourceMode = ''template-text'', existing = True, identical = True,
       content = ''new doc.md''\<rparr>]"
  by code_simp

theorem category_policy_table_witness:
  "exampleOperations =
     buildFileOperations exampleTemplates examplePlan (exampleConfig PromptPolicy None)
       exampleFileSystem \<and>
   ''commands'' \<in> ProcessedArtifact.category ` set exampleOperations \<and>
   ''project-memory'' \<in> ProcessedArtifact.category ` set exampleOperations \<and>
   policyFor (determineCategoryPolicies (summarizeCategories exampleOperations)
                (exampleConfig PromptPolicy None))
      (exampleConfig PromptPolicy None) ''commands'' = PromptPolicy \<and>
   policyFor (determineCategoryPolicies (summarizeCategories exampleOperations)
                (exampleConfig PromptPolicy None))
      (exampleConfig PromptPolicy None) ''project-memory'' = SkipPolicy"
proof -
  have c: "''commands'' \<in> ProcessedArtifact.category ` set exampleOperations"
    and m: "''project-memory'' \<in> ProcessedArtifact.category ` set exampleOperations"
    by (simp_all add: exampleOperations_value)
  have p: "effectiveOverwrite (exampleConfig PromptPolicy None) = PromptPolicy"
    by (simp add: exampleConfig_def)
  from category_policy_table [OF exampleOperations_def c]
  have 1: "policyFor (determineCategoryPolicies (summarizeCategories exampleOperations)
                (exampleConfig PromptPolicy None))
      (exampleConfig PromptPolicy None) ''commands'' = PromptPolicy"
    by (simp add: p exampleOperations_value conflicting_def)
  from category_policy_table [OF exampleOperations_def m]
  have 2: "policyFor (determineCategoryPolicies (summarizeCategories exampleOperations)
                (exampleConfig PromptPolicy None))
      (exampleConfig PromptPolicy None) ''project-memory'' = SkipPolicy"
    by (simp add: p exampleOperations_value conflicting_def)
  from exampleOperations_def c m 1 2 show ?thesis by (intro conjI)
qed

section \<open>The File Operation Builder\<close>

lemma buildFileOperation_flags:
  "FileOperation.identical (buildFileOperation tpl fs a) \<longleftrightarrow>
     files fs (targetPath a) = Some (render tpl a)"
  "FileOperation.existing (buildFileOperation tpl fs a) \<longleftrightarrow> files fs (targetPath a) \<noteq> None"
  "content (buildFileOperation tpl fs a) = render tpl a"
  "targetPath (buildFileOperation tpl fs a) = targetPath a"
  by (simp_all add: buildFileOperation_def Let_def)

text \<open>
  C7. For every File Operation the builder produces, \<open>identical\<close> holds exactly when a file
  exists at the target path and its bytes equal the rendered content; \<open>existing\<close> holds
  exactly when a file exists there, so \<open>identical\<close> is false whenever \<open>existing\<close> is. The
  executor returns its state unchanged on an identical operation (nothing is written or
  counted), and after the rendered content has been written to the target, the builder
  classifies the artifact identical.
\<close>

theorem identical_flag:
  assumes "x \<in> set (buildFileOperations tpl plan cfg fs)"
  shows "(FileOperation.identical x \<longleftrightarrow>
            (\<exists>bytes. files fs (targetPath x) = Some bytes \<and> bytes = content x)) \<and>
         (FileOperation.existing x \<longleftrightarrow> files fs (targetPath x) \<noteq> None) \<and>
         (\<not> FileOperation.existing x \<longrightarrow> \<not> FileOperation.identical x) \<and>
         (FileOperation.identical x \<longrightarrow> executeOperation xcfg pol x st = Some st) \<and>
         (\<forall>a fs'. writeFile fs (targetPath a) (render tpl a) = Inr fs' \<longrightarrow>
            FileOperation.identical (buildFileOperation tpl fs' a))"
proof -
  from assms obtain a where x: "x = buildFileOperation tpl fs a"
    by (auto simp: buildFileOperations_def)
  have 1: "FileOperation.identical x \<longleftrightarrow>
            (\<exists>bytes. files fs (targetPath x) = Some bytes \<and> bytes = content x)"
    unfolding x by (simp add: buildFileOperation_flags)
  have 2: "FileOperation.existing x \<longleftrightarrow> files fs (targetPath x) \<noteq> None"
    unfolding x by (simp add: buildFileOperation_flags)
  from 1 2 have 3: "\<not> FileOperation.existing x \<longrightarrow> \<not> FileOperation.identical x"
    by auto
  from 3 have 4: "FileOperation.identical x \<longrightarrow> executeOperation xcfg pol x st = Some st"
    by (auto simp: executeOperation_def)
  have 5: "\<forall>a fs'. writeFile fs (targetPath a) (render tpl a) = Inr fs' \<longrightarrow>
            FileOperation.identical (buildFileOperation tpl fs' a)"
    by (auto simp: writeFile_def buildFileOperation_flags split: if_splits)
  from 1 2 3 4 5 show ?thesis by (intro conjI)
qed

theorem identical_flag_witness:
  "exampleOperations ! 3 \<in> set (buildFileOperations exampleTemplates examplePlan
                                   (exampleConfig PromptPolicy None) exampleFileSystem) \<and>
   exampleOperations ! 0 \<in> set (buildFileOperations exampleTemplates examplePlan
                                   (exampleConfig PromptPolicy None) exampleFileSystem) \<and>
   FileOperation.identical (exampleOperations ! 3) \<and>
   \<not> FileOperation.identical (exampleOperations ! 0) \<and>
   files exampleFileSystem (targetPath (exampleOperations ! 3)) = Some ''new doc.md'' \<and>
   files exampleFileSystem (targetPath (exampleOperations ! 0)) = Some ''old a'' \<and>
   content (exampleOperations ! 0) = ''new a.md''"
proof -
  have m3: "exampleOperations ! 3 \<in> set (buildFileOperations exampleTemplates examplePlan
                                   (exampleConfig PromptPolicy None) exampleFileSystem)"
    and m0: "exampleOperations ! 0 \<in> set (buildFileOperations exampleTemplates examplePlan
                                   (exampleConfig PromptPolicy None) exampleFileSystem)"
    unfolding exampleOperations_def [symmetric] by (simp_all add: exampleOperations_value)
  have f3: "files exampleFileSystem (targetPath (exampleOperations ! 3)) = Some ''new doc.md''"
    and f0: "files exampleFileSystem (targetPath (exampleOperations ! 0)) = Some ''old a''"
    and c0: "content (exampleOperations ! 0) = ''new a.md''"
    and c3: "content (exampleOperations ! 3) = ''new doc.md''"
    by (simp_all add: exampleOperations_value exampleFileSystem_def exampleFiles_def)
  from identical_flag [OF m3, THEN conjunct1] f3 c3
  have i3: "FileOperation.identical (exampleOperations ! 3)"
    by simp
  from identical_flag [OF m0, THEN conjunct1] f0 c0
  have i0: "\<not> FileOperation.identical (exampleOperations ! 0)"
    by simp
  from m3 m0 i3 i0 f3 f0 c0 show ?thesis by (intro conjI)
qed

section \<open>The Manifest Planner\<close>

lemma tokenAt_shorter:
  assumes "tokenAt s = Some (name, rest)"
  shows "length rest < length s"
proof -
  from assms have "rest = drop 2 (dropWhile isNameChar (drop 2 s))" and "take 2 s = ''{{''"
    by (auto simp: tokenAt_def Let_def split: if_splits)
  moreover have "length (dropWhile isNameChar (drop 2 s)) \<le> length (drop 2 s)"
    by (rule length_dropWhile_le)
  moreover from \<open>take 2 s = ''{{''\<close> have "length s \<ge> 2"
    by (cases s; cases "tl s") auto
  ultimately show ?thesis by simp
qed

text \<open>The fuel of \<open>substitute\<close> is enough: more fuel gives the same result.\<close>

lemma substituteFuel_enough:
  "length s \<le> n \<Longrightarrow> length s \<le> m \<Longrightarrow> substituteFuel n ctx s = substituteFuel m ctx s"
proof (induction n arbitrary: m s)
  case 0
  then show ?case by (cases m) simp_all
next
  case (Suc n)
  show ?case
  proof (cases s)
    case Nil
    then show ?thesis by (cases m) simp_all
  next
    case (Cons c cs)
    with Suc.prems obtain m' where m: "m = Suc m'" and lm: "length cs \<le> m'"
      by (cases m) simp_all
    from Cons Suc.prems have ln: "length cs \<le> n" by simp
    show ?thesis
    proof (cases "tokenAt (c # cs)")
      case None
      with Suc.IH [OF ln lm] show ?thesis by (simp add: Cons m)
    next
      case (Some r)
      obtain name rest where r: "r = (name, rest)" by (cases r)
      from tokenAt_shorter [OF Some [unfolded r]] have "length rest \<le> length cs" by simp
      with ln lm have "length rest \<le> n" "length rest \<le> m'" by simp_all
      from Suc.IH [OF this] Some r show ?thesis
        by (simp add: Cons m split: option.splits)
    qed
  qed
qed

lemma substitute_unfold:
  "substitute ctx [] = []"
  "substitute ctx (c # cs) =
     (case tokenAt (c # cs) of
        None \<Rightarrow> c # substitute ctx cs
      | Some (name, rest) \<Rightarrow>
          (case map_of ctx name of
             Some v \<Rightarrow> v @ substitute ctx rest
           | None \<Rightarrow> ''{{'' @ name @ ''}}'' @ substitute ctx rest))"
proof -
  show "substitute ctx [] = []" by (simp add: substitute_def)
  show "substitute ctx (c # cs) =
     (case tokenAt (c # cs) of
        None \<Rightarrow> c # substitute ctx cs
      | Some (name, rest) \<Rightarrow>
          (case map_of ctx name of
             Some v \<Rightarrow> v @ substitute ctx rest
           | None \<Rightarrow> ''{{'' @ name @ ''}}'' @ substitute ctx rest))"
  proof (cases "tokenAt (c # cs)")
    case None
    then show ?thesis by (simp add: substitute_def)
  next
    case (Some r)
    obtain name rest where r: "r = (name, rest)" by (cases r)
    from tokenAt_shorter [OF Some [unfolded r]] have "length rest \<le> length cs" by simp
    from substituteFuel_enough [OF this order_refl, of ctx] Some r show ?thesis
      by (simp add: substitute_def split: option.splits)
  qed
qed

lemma resolveTarget_Inr:
  "resolveTarget ctx pattern = Inr path \<longleftrightarrow>
     path = substitute ctx pattern \<and> \<not> containsPlaceholder (substitute ctx pattern)"
  by (auto simp: resolveTarget_def Let_def)

lemma resolveTarget_Inl:
  "resolveTarget ctx pattern = Inl e \<longleftrightarrow>
     e = ManifestError pattern \<and> containsPlaceholder (substitute ctx pattern)"
  by (auto simp: resolveTarget_def Let_def)

lemma planArtifacts_Inr:
  assumes "planArtifacts ctx entry ds = Inr ps"
  shows "length ps = length ds \<and>
         map sourcePath ps = map templateSource ds \<and>
         map targetPath ps = map (\<lambda>d. substitute ctx (targetPattern d)) ds \<and>
         (\<forall>d\<in>set ds. \<not> containsPlaceholder (substitute ctx (targetPattern d))) \<and>
         (\<forall>p\<in>set ps. ProcessedArtifact.category p = categoryId entry \<and>
                      ProcessedArtifact.sourceMode p = sourceModeTag entry)"
  using assms
proof (induction ds arbitrary: ps)
  case Nil
  then show ?case by simp
next
  case (Cons d ds)
  from Cons.prems obtain path rest where
    p: "resolveTarget ctx (targetPattern d) = Inr path"
    and r: "planArtifacts ctx entry ds = Inr rest"
    and ps: "ps = \<lparr>sourcePath = templateSource d, targetPath = path,
                   category = categoryId entry, sourceMode = sourceModeTag entry\<rparr> # rest"
    by (auto split: sum.splits)
  from Cons.IH [OF r] p show ?case
    unfolding ps resolveTarget_Inr by simp
qed

lemma planArtifacts_Inl:
  "(\<exists>e. planArtifacts ctx entry ds = Inl e) \<longleftrightarrow>
     (\<exists>d\<in>set ds. containsPlaceholder (substitute ctx (targetPattern d)))"
proof (induction ds)
  case Nil
  show ?case by simp
next
  case (Cons d ds)
  show ?case
  proof (cases "resolveTarget ctx (targetPattern d)")
    case (Inl e)
    then have "containsPlaceholder (substitute ctx (targetPattern d))"
      by (simp add: resolveTarget_Inl)
    with Inl show ?thesis by simp
  next
    case (Inr path)
    then have "\<not> containsPlaceholder (substitute ctx (targetPattern d))"
      by (simp add: resolveTarget_Inr)
    with Inr Cons.IH show ?thesis by (auto split: sum.splits)
  qed
qed

lemma planArtifacts_error:
  "planArtifacts ctx entry ds = Inl e \<Longrightarrow> \<exists>msg. e = ManifestError msg"
  by (induction ds) (auto simp: resolveTarget_Inl split: sum.splits)

lemma planManifest_Inr:
  assumes "planManifest ctx manifest = Inr plan"
  shows "length plan = length (descriptors manifest) \<and>
         map sourcePath plan = map templateSource (descriptors manifest) \<and>
         map targetPath plan = map (\<lambda>d. substitute ctx (targetPattern d)) (descriptors manifest) \<and>
         map ProcessedArtifact.category plan =
           concat (map (\<lambda>entry. replicate (length (artifacts entry)) (categoryId entry)) manifest) \<and>
         (\<forall>d\<in>set (descriptors manifest). \<not> containsPlaceholder (substitute ctx (targetPattern d)))"
  using assms
proof (induction manifest arbitrary: plan)
  case Nil
  then show ?case by (simp add: descriptors_def)
next
  case (Cons entry entries)
  from Cons.prems obtain first rest where
    f: "planArtifacts ctx entry (artifacts entry) = Inr first"
    and r: "planManifest ctx entries = Inr rest"
    and plan: "plan = first @ rest"
    by (auto split: sum.splits)
  note a = planArtifacts_Inr [OF f]
  from a have "map ProcessedArtifact.category first =
                 replicate (length (artifacts entry)) (categoryId entry)"
    by (simp add: map_replicate_const [symmetric] map_eq_conv)
       (metis map_replicate_const map_eq_conv)
  with a Cons.IH [OF r] show ?case
    unfolding plan descriptors_def by auto
qed

lemma planManifest_Inl:
  "(\<exists>e. planManifest ctx manifest = Inl e) \<longleftrightarrow>
     (\<exists>d\<in>set (descriptors manifest). containsPlaceholder (substitute ctx (targetPattern d)))"
proof (induction manifest)
  case Nil
  show ?case by (simp add: descriptors_def)
next
  case (Cons entry entries)
  show ?case
  proof (cases "planArtifacts ctx entry (artifacts entry)")
    case (Inl e)
    with planArtifacts_Inl [of ctx entry "artifacts entry"] show ?thesis
      by (auto simp: descriptors_def)
  next
    case (Inr first)
    with planArtifacts_Inl [of ctx entry "artifacts entry"]
    have "\<not> (\<exists>d\<in>set (artifacts entry). containsPlaceholder (substitute ctx (targetPattern d)))"
      by simp
    with Inr Cons.IH show ?thesis
      by (auto simp: descriptors_def split: sum.splits)
  qed
qed

lemma planManifest_error:
  "planManifest ctx manifest = Inl e \<Longrightarrow> \<exists>msg. e = ManifestError msg"
  by (induction manifest) (auto split: sum.splits dest: planArtifacts_error)

lemma planFromFile_error:
  "planFromFile tpl fs manifestPath cfg = Inl e \<Longrightarrow> \<exists>msg. e = ManifestError msg"
  by (auto simp: planFromFile_def split: option.splits dest: planManifest_error)

text \<open>
  C8. The planner either fails with a \<open>ManifestError\<close> or returns a plan that has one entry
  per artifact descriptor of the manifest, in declaration order (the sources and the
  categories of the plan are those of the descriptors, in order), and no target path of
  the plan contains a placeholder token. It fails exactly when the manifest file is
  missing, or does not parse, or the substitution leaves a token in some target path.
\<close>

theorem plan_entries:
  "((\<exists>msg. planFromFile tpl fs manifestPath cfg = Inl (ManifestError msg)) \<or>
    (\<exists>manifestText manifest plan.
       files fs manifestPath = Some manifestText \<and>
       parseManifest tpl manifestText = Some manifest \<and>
       planFromFile tpl fs manifestPath cfg = Inr plan \<and>
       length plan = length (descriptors manifest) \<and>
       map sourcePath plan = map templateSource (descriptors manifest) \<and>
       map ProcessedArtifact.category plan =
         concat (map (\<lambda>entry. replicate (length (artifacts entry)) (categoryId entry)) manifest) \<and>
       (\<forall>a\<in>set plan. \<not> containsPlaceholder (targetPath a)))) \<and>
   ((\<exists>e. planFromFile tpl fs manifestPath cfg = Inl e) \<longleftrightarrow>
      (case files fs manifestPath of
         None \<Rightarrow> True
       | Some manifestText \<Rightarrow>
           (case parseManifest tpl manifestText of
              None \<Rightarrow> True
            | Some manifest \<Rightarrow>
                (\<exists>d\<in>set (descriptors manifest).
                   containsPlaceholder (substitute (resolutionContext cfg) (targetPattern d))))))"
proof (intro conjI)
  show "(\<exists>msg. planFromFile tpl fs manifestPath cfg = Inl (ManifestError msg)) \<or>
    (\<exists>manifestText manifest plan.
       files fs manifestPath = Some manifestText \<and>
       parseManifest tpl manifestText = Some manifest \<and>
       planFromFile tpl fs manifestPath cfg = Inr plan \<and>
       length plan = length (descriptors manifest) \<and>
       map sourcePath plan = map templateSource (descriptors manifest) \<and>
       map ProcessedArtifact.category plan =
         concat (map (\<lambda>entry. replicate (length (artifacts entry)) (categoryId entry)) manifest) \<and>
       (\<forall>a\<in>set plan. \<not> containsPlaceholder (targetPath a)))"
  proof (cases "planFromFile tpl fs manifestPath cfg")
    case (Inl e)
    with planFromFile_error [OF Inl] show ?thesis by auto
  next
    case (Inr plan)
    then obtain manifestText manifest where
      f: "files fs manifestPath = Some manifestText"
      and m: "parseManifest tpl manifestText = Some manifest"
      and p: "planManifest (resolutionContext cfg) manifest = Inr plan"
      by (auto simp: planFromFile_def split: option.splits)
    note r = planManifest_Inr [OF p]
    from r have "map targetPath plan =
        map (\<lambda>d. substitute (resolutionContext cfg) (targetPattern d)) (descriptors manifest)"
      and "\<forall>d\<in>set (descriptors manifest).
              \<not> containsPlaceholder (substitute (resolutionContext cfg) (targetPattern d))"
      by simp_all
    then have "\<forall>t\<in>set (map targetPath plan). \<not> containsPlaceholder t"
      by auto
    then have "\<forall>a\<in>set plan. \<not> containsPlaceholder (targetPath a)"
      by simp
    with f m Inr r show ?thesis by blast
  qed
next
  show "(\<exists>e. planFromFile tpl fs manifestPath cfg = Inl e) \<longleftrightarrow>
      (case files fs manifestPath of
         None \<Rightarrow> True
       | Some manifestText \<Rightarrow>
           (case parseManifest tpl manifestText of
              None \<Rightarrow> True
            | Some manifest \<Rightarrow>
                (\<exists>d\<in>set (descriptors manifest).
                   containsPlaceholder (substitute (resolutionContext cfg) (targetPattern d)))))"
    by (simp add: planFromFile_def planManifest_Inl split: option.splits)
qed

lemma examplePlan_value:
  "planFromFile exampleTemplates exampleFileSystem ''m.json'' (exampleConfig pol backup) =
     Inr examplePlan"
  by (cases pol; cases backup) code_simp+

theorem plan_entries_witness:
  "planFromFile exampleTemplates exampleFileSystem ''m.json'' (exampleConfig SkipPolicy None) =
     Inr examplePlan \<and>
   length examplePlan = 4 \<and>
   parseManifest exampleTemplates ''M'' = Some exampleManifest \<and>
   length (descriptors exampleManifest) = 4 \<and>
   list_all (\<lambda>a. \<not> containsPlaceholder (targetPath a)) examplePlan"
proof -
  let ?cfg = "exampleConfig SkipPolicy None"
  have v: "planFromFile exampleTemplates exampleFileSystem ''m.json'' ?cfg = Inr examplePlan"
    by (rule examplePlan_value)
  have pm: "parseManifest exampleTemplates ''M'' = Some exampleManifest"
    by (simp add: exampleTemplates_def)
  have f: "files exampleFileSystem ''m.json'' = Some ''M''"
    by (simp add: exampleFileSystem_def exampleFiles_def)
  from plan_entries [of exampleTemplates exampleFileSystem "''m.json''" ?cfg, THEN conjunct1]
  obtain manifestText manifest plan where
    "files exampleFileSystem ''m.json'' = Some manifestText"
    "parseManifest exampleTemplates manifestText = Some manifest"
    "planFromFile exampleTemplates exampleFileSystem ''m.json'' ?cfg = Inr plan"
    "length plan = length (descriptors manifest)"
    "\<forall>a\<in>set plan. \<not> containsPlaceholder (targetPath a)"
    unfolding v by auto
  with v f pm have "length examplePlan = length (descriptors exampleManifest)"
    and "\<forall>a\<in>set examplePlan. \<not> containsPlaceholder (targetPath a)"
    by simp_all
  moreover have "length examplePlan = 4" by (simp add: examplePlan_def)
  ultimately show ?thesis using v pm by (simp add: list_all_iff)
qed

text \<open>A placeholder with no value in the Resolution Context: the planner fails.\<close>

lemma unknown_placeholder_example:
  "planFromFile exampleTemplates exampleFileSystem ''m.json''
     ((exampleConfig SkipPolicy None)\<lparr>resolutionContext := [(''KIRO_DIR'', ''.kiro'')]\<rparr>) =
     Inl (ManifestError ''{{DOC_FILE}}'')"
  by code_simp

lemma missing_manifest_example:
  "planFromFile exampleTemplates exampleFileSystem ''none.json'' (exampleConfig SkipPolicy None) =
     Inl (ManifestError ''none.json'')"
  by code_simp

section \<open>Backups and overwrites\<close>



lemma writeFile_Inl:
  "path \<in> set (unwritable fs) \<Longrightarrow> writeFile fs path bytes = Inl (FilesystemError path)"
  by (simp add: writeFile_def)

lemma writeTarget_frame:
  "aborted (writeTarget x bytes st) = aborted st"
  "handler (writeTarget x bytes st) = handler st"
  "skipped (result (writeTarget x bytes st)) = skipped (result st)"
  "terminal (world (writeTarget x bytes st)) = terminal (world st)"
  "logged (world (writeTarget x bytes st)) = logged (world st)"
  "invoked (world (writeTarget x bytes st)) = invoked (world st)"
  "unwritable (fileSystem (world (writeTarget x bytes st))) = unwritable (fileSystem (world st))"
  by (simp_all add: writeTarget_def writeFile_def countWritten_def ioError_def)

lemma writeTarget_files:
  "files (fileSystem (world (writeTarget x bytes st))) =
     (if targetPath x \<in> set (unwritable (fileSystem (world st)))
      then files (fileSystem (world st))
      else (files (fileSystem (world st)))(targetPath x \<mapsto> bytes))"
  by (simp add: writeTarget_def writeFile_def countWritten_def ioError_def)


lemma writeTarget_errored:
  "errored (world (writeTarget x bytes st)) =
     (if targetPath x \<in> set (unwritable (fileSystem (world st)))
      then errored (world st) @ [OperationFailed (FilesystemError (targetPath x))]
      else errored (world st))"
  by (simp add: writeTarget_def writeFile_def countWritten_def ioError_def)





text \<open>
  Through the whole pipeline under \<open>force\<close> with backups: the three differing files are
  overwritten and their old contents are in the backup directory. When the backup of the
  second file cannot be written, the run stops there with exit code 1: the first file is
  overwritten and backed up, the second and third keep their contents.
\<close>

lemma forced_overwrite_backup_example:
  "(case runPlanExecution exampleTemplates ''m.json'' (exampleConfig ForcePolicy (Some ''bak''))
           (exampleWorld False [] []) of
      None \<Rightarrow> None
    | Some (code, w) \<Rightarrow>
        Some (code,
              map (files (fileSystem w))
                [''.kiro/a.md'', ''.kiro/b.md'', ''.kiro/c.md'',
                 ''bak/.kiro/a.md'', ''bak/.kiro/b.md'', ''bak/.kiro/c.md''],
              errored w)) =
   Some (0, [Some ''new a.md'', Some ''new b.md'', Some ''new c.md'',
             Some ''old a'', Some ''old b'', Some ''old c''], [])"
  by code_simp

lemma failed_backup_example:
  "(case runPlanExecution exampleTemplates ''m.json'' (exampleConfig ForcePolicy (Some ''bak''))
           (exampleWorld False [] [''bak/.kiro/b.md'']) of
      None \<Rightarrow> None
    | Some (code, w) \<Rightarrow>
        Some (code,
              map (files (fileSystem w))
                [''.kiro/a.md'', ''.kiro/b.md'', ''.kiro/c.md'',
                 ''bak/.kiro/a.md'', ''bak/.kiro/b.md'', ''bak/.kiro/c.md''],
              errored w)) =
   Some (1, [Some ''new a.md'', Some ''old b'', Some ''old c'',
             Some ''old a'', None, None], [ErrorLine (BackupError ''.kiro/b.md'')])"
  by code_simp

section \<open>The pipelines\<close>

lemma called_frame:
  "fileSystem (called c w) = fileSystem w"
  "terminal (called c w) = terminal w"
  "logged (called c w) = logged w"
  "errored (called c w) = errored w"
  "invoked (called c w) = invoked w @ [c]"
  by (simp_all add: called_def)

lemma ioLog_frame:
  "fileSystem (ioLog l w) = fileSystem w"
  "terminal (ioLog l w) = terminal w"
  "logged (ioLog l w) = logged w @ [l]"
  "errored (ioLog l w) = errored w"
  "invoked (ioLog l w) = invoked w"
  by (simp_all add: ioLog_def)

lemma ioError_frame:
  "fileSystem (ioError l w) = fileSystem w"
  "terminal (ioError l w) = terminal w"
  "logged (ioError l w) = logged w"
  "errored (ioError l w) = errored w @ [l]"
  "invoked (ioError l w) = invoked w"
  by (simp_all add: ioError_def)

lemma printSummary_frame:
  "fileSystem (printSummary s cfg w) = fileSystem w"
  "terminal (printSummary s cfg w) = terminal w"
  "logged (printSummary s cfg w) = logged w @ [SummaryReport s]"
  "errored (printSummary s cfg w) = errored w"
  "invoked (printSummary s cfg w) = invoked w @ [PrintSummary]"
  by (simp_all add: printSummary_def ioLog_frame called_frame)

lemma printCompletionGuide_frame:
  "fileSystem (printCompletionGuide a w) = fileSystem w"
  "terminal (printCompletionGuide a w) = terminal w"
  "logged (printCompletionGuide a w) = logged w @ [CompletionGuide a]"
  "errored (printCompletionGuide a w) = errored w"
  "invoked (printCompletionGuide a w) = invoked w @ [PrintCompletionGuide]"
  by (simp_all add: printCompletionGuide_def ioLog_frame called_frame)

lemmas world_frame =
  called_frame ioLog_frame ioError_frame printSummary_frame printCompletionGuide_frame

lemma runPlanExecution_plan_failed:
  assumes "planFromFile tpl (fileSystem w) manifestPath cfg = Inl e"
  shows "runPlanExecution tpl manifestPath cfg w =
           Some (1, ioError (ErrorLine e) (called PlanFromFile w))"
  using assms by (simp add: runPlanExecution_def called_frame)

lemma runPlanExecution_planned:
  assumes "planFromFile tpl (fileSystem w) manifestPath cfg = Inr plan"
  shows "runPlanExecution tpl manifestPath cfg w =
     (case executeOperations cfg (pipelinePolicies cfg (pipelineOperations tpl plan cfg w))
             (pipelineOperations tpl plan cfg w)
             (executorStart cfg (pipelineOperations tpl plan cfg w) w) of
        None \<Rightarrow> None
      | Some st \<Rightarrow>
          (case aborted st of
             Some e \<Rightarrow> Some (1, ioError (ErrorLine e) (world st))
           | None \<Rightarrow>
               Some (0, printCompletionGuide (agent cfg)
                          (ioLog (SetupCompleted (written (result st)) (skipped (result st)))
                             (world st)))))"
proof -
  have p: "planFromFile tpl (fileSystem (called PlanFromFile w)) manifestPath cfg = Inr plan"
    using assms by (simp add: called_frame)
  let ?ops = "pipelineOperations tpl plan cfg w"
  let ?run = "executeOperations cfg (pipelinePolicies cfg ?ops) ?ops (executorStart cfg ?ops w)"
  have e: "runPlanExecution tpl manifestPath cfg w =
     (case (case ?run of None \<Rightarrow> None
            | Some st \<Rightarrow> Some ((case aborted st of Some e \<Rightarrow> Inl e | None \<Rightarrow> Inr (result st)),
                                world st)) of
        None \<Rightarrow> None
      | Some (Inl e, w8) \<Rightarrow> Some (1, ioError (ErrorLine e) w8)
      | Some (Inr res, w8) \<Rightarrow>
          Some (0, printCompletionGuide (agent cfg)
                     (ioLog (SetupCompleted (written res) (skipped res)) w8)))"
    unfolding runPlanExecution_def executeProcessedArtifacts_def executorStart_def
      pipelineOperations_def pipelinePolicies_def Let_def p
    by (simp only: called_frame sum.case)
  show ?thesis
  proof (cases ?run)
    case None
    with e show ?thesis by simp
  next
    case (Some st)
    with e show ?thesis by (cases "aborted st") simp_all
  qed
qed

lemma executorStart_fields:
  "fileSystem (world (executorStart cfg ops w)) = fileSystem w"
  "terminal (world (executorStart cfg ops w)) = terminal w"
  "errored (world (executorStart cfg ops w)) = errored w"
  "handler (executorStart cfg ops w) =
     createConflictHandler (terminal w) (summarizeCategories ops) (effectiveOverwrite cfg)"
  "result (executorStart cfg ops w) = \<lparr>written = 0, skipped = 0\<rparr>"
  "aborted (executorStart cfg ops w) = None"
  by (simp_all add: executorStart_def Let_def world_frame)

lemma executorStart_logged:
  "logged (world (executorStart cfg ops w)) =
     logged w @ [SummaryReport (summarizeCategories ops)] @
       (if createConflictHandler (terminal w) (summarizeCategories ops) (effectiveOverwrite cfg) = None
           \<and> effectiveOverwrite cfg = PromptPolicy
        then [Warning promptUnavailableWarning] else [])"
  by (cases "effectiveOverwrite cfg") (simp_all add: executorStart_def Let_def world_frame)

lemma executorStart_invoked:
  "invoked (world (executorStart cfg ops w)) =
     invoked w @ [PlanFromFile, BuildFileOperations, SummarizeCategories, PrintSummary] @
       (if effectiveOverwrite cfg = ForcePolicy then [] else [DetermineCategoryPolicies]) @
       [CreateConflictHandler, ExecuteProcessedArtifacts]"
  by (simp add: executorStart_def Let_def world_frame)

lemma countSkipped_frame:
  "world (countSkipped st) = world st"
  "handler (countSkipped st) = handler st"
  "aborted (countSkipped st) = aborted st"
  "skipped (result (countSkipped st)) = skipped (result st) + 1"
  "written (result (countSkipped st)) = written (result st)"
  by (simp_all add: countSkipped_def)

lemma overwriteTarget_frame:
  "handler (overwriteTarget cfg x st) = handler st"
  "terminal (world (overwriteTarget cfg x st)) = terminal (world st)"
  "logged (world (overwriteTarget cfg x st)) = logged (world st)"
  "invoked (world (overwriteTarget cfg x st)) = invoked (world st)"
  "skipped (result (overwriteTarget cfg x st)) = skipped (result st)"
  by (simp_all add: overwriteTarget_def writeTarget_frame split: option.splits sum.splits)

lemma overwriteTarget_errored:
  "\<exists>new. errored (world (overwriteTarget cfg x st)) = errored (world st) @ new \<and>
         (\<forall>l\<in>set new. \<exists>e. l = OperationFailed e)"
  by (simp add: overwriteTarget_def writeTarget_errored split: option.splits sum.splits)

lemma overwriteTarget_aborted:
  "aborted (overwriteTarget cfg x st) = aborted st \<or>
   (\<exists>p. aborted (overwriteTarget cfg x st) = Some (BackupError p))"
  by (simp add: overwriteTarget_def writeTarget_frame split: option.splits sum.splits)

lemma appendTarget_frame:
  "handler (appendTarget x st) = handler st"
  "aborted (appendTarget x st) = aborted st"
  "terminal (world (appendTarget x st)) = terminal (world st)"
  "logged (world (appendTarget x st)) = logged (world st)"
  "invoked (world (appendTarget x st)) = invoked (world st)"
  "skipped (result (appendTarget x st)) = skipped (result st)"
  by (simp_all add: appendTarget_def writeTarget_frame split: option.splits)

lemma appendTarget_errored:
  "\<exists>new. errored (world (appendTarget x st)) = errored (world st) @ new \<and>
         (\<forall>l\<in>set new. \<exists>e. l = OperationFailed e)"
  by (simp add: appendTarget_def writeTarget_errored split: option.splits)

lemma applyDecision_frame:
  "logged (world (applyDecision cfg x d st)) = logged (world st)"
  "invoked (world (applyDecision cfg x d st)) = invoked (world st)"
  by (cases d; simp add: applyDecision_def overwriteTarget_frame appendTarget_frame countSkipped_frame)+

lemma applyDecision_errored:
  "\<exists>new. errored (world (applyDecision cfg x d st)) = errored (world st) @ new \<and>
         (\<forall>l\<in>set new. \<exists>e. l = OperationFailed e)"
  by (cases d)
     (simp_all add: applyDecision_def overwriteTarget_errored appendTarget_errored countSkipped_frame)

lemma applyDecision_aborted:
  "aborted (applyDecision cfg x d st) = aborted st \<or>
   (\<exists>p. aborted (applyDecision cfg x d st) = Some (BackupError p))"
  by (cases d)
     (simp_all add: applyDecision_def overwriteTarget_aborted appendTarget_frame countSkipped_frame)

text \<open>
  What every step of the executor keeps: it writes nothing through \<^verbatim>\<open>io.log\<close>, calls no
  pipeline component, reports per-file errors only as \<open>OperationFailed\<close>, and aborts only
  with a \<open>BackupError\<close>.
\<close>

lemma executeOperation_invariant:
  assumes "executeOperation cfg pol x st = Some st'"
  shows "logged (world st') = logged (world st) \<and>
         invoked (world st') = invoked (world st) \<and>
         (\<exists>new. errored (world st') = errored (world st) @ new \<and>
                (\<forall>l\<in>set new. \<exists>e. l = OperationFailed e)) \<and>
         (aborted st' = aborted st \<or> (\<exists>p. aborted st' = Some (BackupError p)))"
proof -
  consider (new) "\<not> FileOperation.existing x"
    | (same) "FileOperation.existing x" "FileOperation.identical x"
    | (force) "FileOperation.existing x" "\<not> FileOperation.identical x"
        "policyFor pol cfg (ProcessedArtifact.category x) = ForcePolicy"
    | (skip) "FileOperation.existing x" "\<not> FileOperation.identical x"
        "policyFor pol cfg (ProcessedArtifact.category x) = SkipPolicy \<or>
         policyFor pol cfg (ProcessedArtifact.category x) = PromptPolicy \<and> handler st = None"
    | (ask) h where "FileOperation.existing x" "\<not> FileOperation.identical x"
        "policyFor pol cfg (ProcessedArtifact.category x) = PromptPolicy" "handler st = Some h"
    by (cases "policyFor pol cfg (ProcessedArtifact.category x)"; cases "handler st") auto
  then show ?thesis
  proof cases
    case new
    with assms have "st' = writeTarget x (content x) st"
      by (simp add: executeOperation_def)
    then show ?thesis by (simp add: writeTarget_frame writeTarget_errored)
  next
    case same
    with assms have "st' = st" by (simp add: executeOperation_def)
    then show ?thesis by simp
  next
    case force
    with assms have s: "st' = overwriteTarget cfg x st"
      by (simp add: executeOperation_def)
    show ?thesis
      unfolding s
      using overwriteTarget_errored [of cfg x st] overwriteTarget_aborted [of cfg x st]
      by (simp add: overwriteTarget_frame)
  next
    case skip
    with assms have "st' = countSkipped st"
      by (auto simp: executeOperation_def)
    then show ?thesis by (simp add: countSkipped_frame)
  next
    case ask
    with assms obtain d h' t' where
      s: "st' = applyDecision cfg x d (st\<lparr>world := (world st)\<lparr>terminal := t'\<rparr>, handler := Some h'\<rparr>)"
      by (auto simp: executeOperation_def split: option.splits prod.splits)
    let ?st = "st\<lparr>world := (world st)\<lparr>terminal := t'\<rparr>, handler := Some h'\<rparr>"
    show ?thesis
      unfolding s
      using applyDecision_errored [of cfg x d ?st] applyDecision_aborted [of cfg x d ?st]
      by (simp add: applyDecision_frame)
  qed
qed

lemma executeOperations_invariant:
  assumes "executeOperations cfg pol ops st = Some st'"
  shows "logged (world st') = logged (world st) \<and>
         invoked (world st') = invoked (world st) \<and>
         (\<exists>new. errored (world st') = errored (world st) @ new \<and>
                (\<forall>l\<in>set new. \<exists>e. l = OperationFailed e)) \<and>
         (aborted st' = aborted st \<or> (\<exists>p. aborted st' = Some (BackupError p)))"
  using assms
proof (induction ops arbitrary: st)
  case Nil
  then show ?case by simp
next
  case (Cons x xs)
  from Cons.prems obtain st1 where
    one: "executeOperation cfg pol x st = Some st1"
    and rest: "aborted st1 \<noteq> None \<and> st' = st1 \<or>
               aborted st1 = None \<and> executeOperations cfg pol xs st1 = Some st'"
    by (auto split: option.splits if_splits)
  note a = executeOperation_invariant [OF one]
  from rest show ?case
  proof
    assume "aborted st1 \<noteq> None \<and> st' = st1"
    with a show ?thesis by simp
  next
    assume r: "aborted st1 = None \<and> executeOperations cfg pol xs st1 = Some st'"
    note b = Cons.IH [OF conjunct2 [OF r]]
    from a obtain n1 where n1: "errored (world st1) = errored (world st) @ n1"
      "\<forall>l\<in>set n1. \<exists>e. l = OperationFailed e" by blast
    from b obtain n2 where n2: "errored (world st') = errored (world st1) @ n2"
      "\<forall>l\<in>set n2. \<exists>e. l = OperationFailed e" by blast
    from n1 n2 have "errored (world st') = errored (world st) @ (n1 @ n2) \<and>
        (\<forall>l\<in>set (n1 @ n2). \<exists>e. l = OperationFailed e)"
      by auto
    then have e: "\<exists>new. errored (world st') = errored (world st) @ new \<and>
                (\<forall>l\<in>set new. \<exists>e. l = OperationFailed e)" by (rule exI)
    from a b r have "aborted st' = aborted st \<or> (\<exists>p. aborted st' = Some (BackupError p))"
      by auto
    with a b e show ?thesis by simp
  qed
qed

text \<open>
  A conflicting file under a \<open>skip\<close> policy, or under a \<open>prompt\<close> policy when there is no
  conflict handler, is left as it is and counted as skipped; no input is read.
\<close>

lemma executeOperation_quiet:
  assumes "policyFor pol cfg (ProcessedArtifact.category x) = SkipPolicy \<or>
           policyFor pol cfg (ProcessedArtifact.category x) = PromptPolicy \<and> handler st = None"
  shows "\<exists>st'. executeOperation cfg pol x st = Some st' \<and>
           handler st' = handler st \<and>
           terminal (world st') = terminal (world st) \<and>
           aborted st' = aborted st \<and>
           skipped (result st') = skipped (result st) + (if conflicting x then 1 else 0) \<and>
           (\<forall>p. FileOperation.existing x \<or> p \<noteq> targetPath x \<longrightarrow>
                files (fileSystem (world st')) p = files (fileSystem (world st)) p)"
proof -
  consider (new) "\<not> FileOperation.existing x"
    | (same) "FileOperation.existing x" "FileOperation.identical x"
    | (conflict) "FileOperation.existing x" "\<not> FileOperation.identical x"
    by blast
  then show ?thesis
  proof cases
    case new
    then have "executeOperation cfg pol x st = Some (writeTarget x (content x) st)"
      by (simp add: executeOperation_def)
    with new show ?thesis
      by (simp add: writeTarget_frame writeTarget_files conflicting_def)
  next
    case same
    then have "executeOperation cfg pol x st = Some st"
      by (simp add: executeOperation_def)
    with same show ?thesis by (simp add: conflicting_def)
  next
    case conflict
    with assms have "executeOperation cfg pol x st = Some (countSkipped st)"
      by (auto simp: executeOperation_def)
    with conflict show ?thesis by (simp add: countSkipped_frame conflicting_def)
  qed
qed

lemma executeOperations_quiet:
  assumes "\<forall>x\<in>set ops. policyFor pol cfg (ProcessedArtifact.category x) = SkipPolicy \<or>
             policyFor pol cfg (ProcessedArtifact.category x) = PromptPolicy \<and> handler st = None"
    and "aborted st = None"
  shows "\<exists>st'. executeOperations cfg pol ops st = Some st' \<and>
           handler st' = handler st \<and>
           terminal (world st') = terminal (world st) \<and>
           aborted st' = None \<and>
           skipped (result st') = skipped (result st) + length (filter conflicting ops) \<and>
           (\<forall>p. (\<forall>x\<in>set ops. FileOperation.existing x \<or> p \<noteq> targetPath x) \<longrightarrow>
                files (fileSystem (world st')) p = files (fileSystem (world st)) p)"
  using assms
proof (induction ops arbitrary: st)
  case Nil
  then show ?case by simp
next
  case (Cons x xs)
  from Cons.prems(1) have
    "policyFor pol cfg (ProcessedArtifact.category x) = SkipPolicy \<or>
     policyFor pol cfg (ProcessedArtifact.category x) = PromptPolicy \<and> handler st = None"
    by simp
  from executeOperation_quiet [OF this] obtain st1 where
    one: "executeOperation cfg pol x st = Some st1"
    and h: "handler st1 = handler st"
    and t: "terminal (world st1) = terminal (world st)"
    and a: "aborted st1 = aborted st"
    and s: "skipped (result st1) = skipped (result st) + (if conflicting x then 1 else 0)"
    and f: "\<forall>p. FileOperation.existing x \<or> p \<noteq> targetPath x \<longrightarrow>
                files (fileSystem (world st1)) p = files (fileSystem (world st)) p"
    by blast
  from Cons.prems(1) h have
    "\<forall>x\<in>set xs. policyFor pol cfg (ProcessedArtifact.category x) = SkipPolicy \<or>
             policyFor pol cfg (ProcessedArtifact.category x) = PromptPolicy \<and> handler st1 = None"
    by simp
  moreover from a Cons.prems(2) have a1: "aborted st1 = None" by simp
  ultimately obtain st' where
    rest: "executeOperations cfg pol xs st1 = Some st'"
    and h': "handler st' = handler st1"
    and t': "terminal (world st') = terminal (world st1)"
    and a': "aborted st' = None"
    and s': "skipped (result st') = skipped (result st1) + length (filter conflicting xs)"
    and f': "\<forall>p. (\<forall>x\<in>set xs. FileOperation.existing x \<or> p \<noteq> targetPath x) \<longrightarrow>
                files (fileSystem (world st')) p = files (fileSystem (world st1)) p"
    using Cons.IH [of st1] by blast
  have "executeOperations cfg pol (x # xs) st = Some st'"
    using one a1 rest by simp
  moreover have "skipped (result st') = skipped (result st) + length (filter conflicting (x # xs))"
    using s s' by simp
  moreover have "\<forall>p. (\<forall>y\<in>set (x # xs). FileOperation.existing y \<or> p \<noteq> targetPath y) \<longrightarrow>
                files (fileSystem (world st')) p = files (fileSystem (world st)) p"
    using f f' by auto
  ultimately show ?case using h h' t t' a' by simp
qed

lemma pipelinePolicies_not_force:
  assumes "effectiveOverwrite cfg \<noteq> ForcePolicy"
    and "x \<in> set ops"
  shows "policyFor (pipelinePolicies cfg ops) cfg (ProcessedArtifact.category x) = SkipPolicy \<or>
         effectiveOverwrite cfg = PromptPolicy \<and>
         policyFor (pipelinePolicies cfg ops) cfg (ProcessedArtifact.category x) = PromptPolicy"
proof -
  from assms(2) have "ProcessedArtifact.category x \<in> ProcessedArtifact.category ` set ops"
    by simp
  from determineCategoryPolicies_lookup [OF this, of cfg] assms(1) show ?thesis
    by (cases "effectiveOverwrite cfg")
       (simp_all add: pipelinePolicies_def policyFor_def categoryPolicy_def)
qed

lemma built_existing:
  assumes "x \<in> set (buildFileOperations tpl plan cfg fs)" and "files fs p \<noteq> None"
  shows "FileOperation.existing x \<or> p \<noteq> targetPath x"
  using assms by (auto simp: buildFileOperations_def buildFileOperation_flags)

text \<open>
  A run whose categories all resolve to \<open>skip\<close>, or to \<open>prompt\<close> with no conflict handler:
  it returns with exit code 0, reads no input, leaves every file that existed as it was
  and reports every conflicting file as skipped.
\<close>

lemma runPlanExecution_quiet:
  assumes plan: "planFromFile tpl (fileSystem w) manifestPath cfg = Inr plan"
    and mode: "effectiveOverwrite cfg = SkipPolicy \<or>
               effectiveOverwrite cfg = PromptPolicy \<and> \<not> interactive (terminal w)"
  shows "\<exists>w' n. runPlanExecution tpl manifestPath cfg w = Some (0, w') \<and>
           terminal w' = terminal w \<and>
           (\<forall>p. files (fileSystem w) p \<noteq> None \<longrightarrow> files (fileSystem w') p = files (fileSystem w) p) \<and>
           newLines w w' =
             [SummaryReport (summarizeCategories (pipelineOperations tpl plan cfg w))] @
             (if effectiveOverwrite cfg = PromptPolicy then [Warning promptUnavailableWarning] else []) @
             [SetupCompleted n (length (filter conflicting (pipelineOperations tpl plan cfg w))),
              CompletionGuide (agent cfg)] \<and>
           (\<forall>e. ErrorLine e \<notin> set (newErrors w w'))"
proof -
  let ?ops = "pipelineOperations tpl plan cfg w"
  let ?pol = "pipelinePolicies cfg ?ops"
  let ?st = "executorStart cfg ?ops w"
  from mode have nf: "effectiveOverwrite cfg \<noteq> ForcePolicy" by auto
  have hnone: "effectiveOverwrite cfg = PromptPolicy \<Longrightarrow> handler ?st = None"
    using mode
    by (auto simp: executorStart_fields createConflictHandler_def isInteractive_def)
  have q: "\<forall>x\<in>set ?ops. policyFor ?pol cfg (ProcessedArtifact.category x) = SkipPolicy \<or>
             policyFor ?pol cfg (ProcessedArtifact.category x) = PromptPolicy \<and> handler ?st = None"
    using pipelinePolicies_not_force [OF nf] hnone by blast
  have a0: "aborted ?st = None" by (simp add: executorStart_fields)
  from executeOperations_quiet [OF q a0] obtain st' where
    run: "executeOperations cfg ?pol ?ops ?st = Some st'"
    and t: "terminal (world st') = terminal (world ?st)"
    and a: "aborted st' = None"
    and s: "skipped (result st') = skipped (result ?st) + length (filter conflicting ?ops)"
    and f: "\<forall>p. (\<forall>x\<in>set ?ops. FileOperation.existing x \<or> p \<noteq> targetPath x) \<longrightarrow>
                files (fileSystem (world st')) p = files (fileSystem (world ?st)) p"
    by blast
  note inv = executeOperations_invariant [OF run]
  let ?w' = "printCompletionGuide (agent cfg)
               (ioLog (SetupCompleted (written (result st')) (skipped (result st'))) (world st'))"
  have r: "runPlanExecution tpl manifestPath cfg w = Some (0, ?w')"
    unfolding runPlanExecution_planned [OF plan] run using a by simp
  have 1: "terminal ?w' = terminal w"
    using t by (simp add: world_frame executorStart_fields)
  have 2: "\<forall>p. files (fileSystem w) p \<noteq> None \<longrightarrow> files (fileSystem ?w') p = files (fileSystem w) p"
  proof (intro allI impI)
    fix p assume "files (fileSystem w) p \<noteq> None"
    then have "\<forall>x\<in>set ?ops. FileOperation.existing x \<or> p \<noteq> targetPath x"
      unfolding pipelineOperations_def using built_existing by blast
    with f show "files (fileSystem ?w') p = files (fileSystem w) p"
      by (simp add: world_frame executorStart_fields)
  qed
  have warn: "(createConflictHandler (terminal w) (summarizeCategories ?ops) (effectiveOverwrite cfg)
                 = None \<and> effectiveOverwrite cfg = PromptPolicy) \<longleftrightarrow>
              effectiveOverwrite cfg = PromptPolicy"
    using hnone by (auto simp: executorStart_fields)
  have 3: "newLines w ?w' =
             [SummaryReport (summarizeCategories ?ops)] @
             (if effectiveOverwrite cfg = PromptPolicy then [Warning promptUnavailableWarning] else []) @
             [SetupCompleted (written (result st')) (length (filter conflicting ?ops)),
              CompletionGuide (agent cfg)]"
    using inv s
    by (simp add: newLines_def world_frame executorStart_logged warn executorStart_fields)
  from inv obtain new where
    "errored (world st') = errored w @ new" "\<forall>l\<in>set new. \<exists>e. l = OperationFailed e"
    by (auto simp: executorStart_fields)
  then have 4: "\<forall>e. ErrorLine e \<notin> set (newErrors w ?w')"
    by (auto simp: newErrors_def world_frame)
  from r 1 2 3 4 show ?thesis by blast
qed

text \<open>
  C6. In a run with no terminal attached and the global setting \<open>prompt\<close>: no conflict
  handler is created; a conflicting file of a \<open>prompt\<close> category is executed as a skip;
  the run returns (it never waits for input) and reads nothing from the terminal; and
  when planning succeeds the exit code is 0, the warning is written through \<^verbatim>\<open>io.log\<close>,
  no error line is written, every file that existed keeps its content and every
  conflicting file is counted as skipped.
\<close>

theorem non_interactive_prompt_skips:
  assumes "\<not> interactive (terminal w)" and "effectiveOverwrite cfg = PromptPolicy"
  shows "createConflictHandler (terminal w) summaries (effectiveOverwrite cfg) = None \<and>
     (\<forall>x pol st. handler st = None \<and> conflicting x \<and>
         policyFor pol cfg (ProcessedArtifact.category x) = PromptPolicy \<longrightarrow>
         executeOperation cfg pol x st = Some (countSkipped st)) \<and>
     (\<exists>code w'. runPlanExecution tpl manifestPath cfg w = Some (code, w') \<and>
         terminal w' = terminal w) \<and>
     (\<forall>plan. planFromFile tpl (fileSystem w) manifestPath cfg = Inr plan \<longrightarrow>
        (\<exists>w' n. runPlanExecution tpl manifestPath cfg w = Some (0, w') \<and>
           terminal w' = terminal w \<and>
           (\<forall>p. files (fileSystem w) p \<noteq> None \<longrightarrow>
                files (fileSystem w') p = files (fileSystem w) p) \<and>
           newLines w w' =
             [SummaryReport (summarizeCategories (pipelineOperations tpl plan cfg w)),
              Warning promptUnavailableWarning,
              SetupCompleted n (length (filter conflicting (pipelineOperations tpl plan cfg w))),
              CompletionGuide (agent cfg)] \<and>
           (\<forall>e. ErrorLine e \<notin> set (newErrors w w'))))"
proof (intro conjI allI impI)
  show "createConflictHandler (terminal w) summaries (effectiveOverwrite cfg) = None"
    using assms(1) by (simp add: createConflictHandler_def isInteractive_def)
next
  fix x :: FileOperation and pol :: "string \<rightharpoonup> OverwritePolicy" and st :: ExecState
  assume "handler st = None \<and> conflicting x \<and>
         policyFor pol cfg (ProcessedArtifact.category x) = PromptPolicy"
  then show "executeOperation cfg pol x st = Some (countSkipped st)"
    by (simp add: executeOperation_def conflicting_def)
next
  have mode: "effectiveOverwrite cfg = SkipPolicy \<or>
               effectiveOverwrite cfg = PromptPolicy \<and> \<not> interactive (terminal w)"
    using assms by simp
  show "\<exists>code w'. runPlanExecution tpl manifestPath cfg w = Some (code, w') \<and>
         terminal w' = terminal w"
  proof (cases "planFromFile tpl (fileSystem w) manifestPath cfg")
    case (Inl e)
    from runPlanExecution_plan_failed [OF Inl] show ?thesis
      by (simp add: world_frame)
  next
    case (Inr plan)
    from runPlanExecution_quiet [OF Inr mode] show ?thesis by blast
  qed
  fix plan
  assume plan: "planFromFile tpl (fileSystem w) manifestPath cfg = Inr plan"
  from runPlanExecution_quiet [OF plan mode] assms(2)
  show "\<exists>w' n. runPlanExecution tpl manifestPath cfg w = Some (0, w') \<and>
           terminal w' = terminal w \<and>
           (\<forall>p. files (fileSystem w) p \<noteq> None \<longrightarrow>
                files (fileSystem w') p = files (fileSystem w) p) \<and>
           newLines w w' =
             [SummaryReport (summarizeCategories (pipelineOperations tpl plan cfg w)),
              Warning promptUnavailableWarning,
              SetupCompleted n (length (filter conflicting (pipelineOperations tpl plan cfg w))),
              CompletionGuide (agent cfg)] \<and>
           (\<forall>e. ErrorLine e \<notin> set (newErrors w w'))"
    by simp
qed

lemma exampleWorld_fileSystem:
  "fileSystem (exampleWorld tty inputs []) = exampleFileSystem"
  by (simp add: exampleWorld_def exampleFileSystem_def)

lemma example_pipelineOperations:
  "pipelineOperations exampleTemplates examplePlan (exampleConfig pol backup)
     (exampleWorld tty inputs []) = exampleOperations"
  by (simp add: pipelineOperations_def exampleWorld_fileSystem exampleOperations_def
      buildFileOperations_def)

lemma example_conflicting:
  "length (filter conflicting exampleOperations) = 3"
  by (simp add: exampleOperations_value conflicting_def)

theorem non_interactive_prompt_skips_witness:
  "\<not> interactive (terminal (exampleWorld False [] [])) \<and>
   effectiveOverwrite (exampleConfig PromptPolicy None) = PromptPolicy \<and>
   planFromFile exampleTemplates (fileSystem (exampleWorld False [] [])) ''m.json''
     (exampleConfig PromptPolicy None) = Inr examplePlan \<and>
   (\<exists>w' n. runPlanExecution exampleTemplates ''m.json'' (exampleConfig PromptPolicy None)
              (exampleWorld False [] []) = Some (0, w') \<and>
      files (fileSystem w') ''.kiro/a.md'' = Some ''old a'' \<and>
      newLines (exampleWorld False [] []) w' =
        [SummaryReport (summarizeCategories exampleOperations),
         Warning promptUnavailableWarning, SetupCompleted n 3, CompletionGuide ''cursor''])"
proof -
  let ?w = "exampleWorld False [] []"
  let ?cfg = "exampleConfig PromptPolicy None"
  have i: "\<not> interactive (terminal ?w)" by (simp add: exampleWorld_def)
  have p: "effectiveOverwrite ?cfg = PromptPolicy" by (simp add: exampleConfig_def)
  have a: "agent ?cfg = ''cursor''" by (simp add: exampleConfig_def)
  have plan: "planFromFile exampleTemplates (fileSystem ?w) ''m.json'' ?cfg = Inr examplePlan"
    unfolding exampleWorld_fileSystem by (rule examplePlan_value)
  have f: "files (fileSystem ?w) ''.kiro/a.md'' = Some ''old a''"
    by (simp add: exampleWorld_def exampleFiles_def)
  from non_interactive_prompt_skips [OF i p, of "[]" exampleTemplates "''m.json''"] plan
  obtain w' n where
    "runPlanExecution exampleTemplates ''m.json'' ?cfg ?w = Some (0, w')"
    "\<forall>p. files (fileSystem ?w) p \<noteq> None \<longrightarrow> files (fileSystem w') p = files (fileSystem ?w) p"
    "newLines ?w w' =
       [SummaryReport (summarizeCategories (pipelineOperations exampleTemplates examplePlan ?cfg ?w)),
        Warning promptUnavailableWarning,
        SetupCompleted n (length (filter conflicting (pipelineOperations exampleTemplates examplePlan ?cfg ?w))),
        CompletionGuide (agent ?cfg)]"
    by blast
  with f a have
    "runPlanExecution exampleTemplates ''m.json'' ?cfg ?w = Some (0, w') \<and>
      files (fileSystem w') ''.kiro/a.md'' = Some ''old a'' \<and>
      newLines ?w w' =
        [SummaryReport (summarizeCategories exampleOperations),
         Warning promptUnavailableWarning, SetupCompleted n 3, CompletionGuide ''cursor'']"
    by (simp add: example_pipelineOperations example_conflicting)
  then have "\<exists>w' n. runPlanExecution exampleTemplates ''m.json'' ?cfg ?w = Some (0, w') \<and>
      files (fileSystem w') ''.kiro/a.md'' = Some ''old a'' \<and>
      newLines ?w w' =
        [SummaryReport (summarizeCategories exampleOperations),
         Warning promptUnavailableWarning, SetupCompleted n 3, CompletionGuide ''cursor'']"
    by blast
  with i p plan show ?thesis by (intro conjI)
qed

text \<open>The same run, computed: nothing is written, three files are skipped.\<close>

lemma non_interactive_example:
  "(case runPlanExecution exampleTemplates ''m.json'' (exampleConfig PromptPolicy None)
           (exampleWorld False [] []) of
      None \<Rightarrow> None
    | Some (code, w) \<Rightarrow>
        Some (code, map (files (fileSystem w)) [''.kiro/a.md'', ''.kiro/b.md'', ''.kiro/c.md''],
              tl (logged w), errored w)) =
   Some (0, [Some ''old a'', Some ''old b'', Some ''old c''],
         [Warning promptUnavailableWarning, SetupCompleted 0 3, CompletionGuide ''cursor''], [])"
  by code_simp

lemma newErrors_append:
  "errored w' = errored w @ new \<Longrightarrow> newErrors w w' = new"
  by (simp add: newErrors_def)

lemma newLines_append:
  "logged w' = logged w @ new \<Longrightarrow> newLines w w' = new"
  by (simp add: newLines_def)

text \<open>The three ways \<^verbatim>\<open>runPlanExecution\<close> returns.\<close>

lemma runPlanExecution_outcomes:
  assumes "runPlanExecution tpl manifestPath cfg w = Some (code, w')"
  shows "(\<exists>e. planFromFile tpl (fileSystem w) manifestPath cfg = Inl e \<and> code = 1 \<and>
              newErrors w w' = [ErrorLine e] \<and> newLines w w' = []) \<or>
         (\<exists>plan p failed printed. planFromFile tpl (fileSystem w) manifestPath cfg = Inr plan \<and> code = 1 \<and>
              newErrors w w' = failed @ [ErrorLine (BackupError p)] \<and>
              (\<forall>l\<in>set failed. \<exists>e. l = OperationFailed e) \<and>
              newLines w w' = printed \<and>
              (\<forall>l\<in>set printed. (\<exists>s. l = SummaryReport s) \<or> (\<exists>m. l = Warning m))) \<or>
         (\<exists>plan failed printed n m. planFromFile tpl (fileSystem w) manifestPath cfg = Inr plan \<and> code = 0 \<and>
              newErrors w w' = failed \<and>
              (\<forall>l\<in>set failed. \<exists>e. l = OperationFailed e) \<and>
              newLines w w' = printed @ [SetupCompleted n m, CompletionGuide (agent cfg)])"
proof (cases "planFromFile tpl (fileSystem w) manifestPath cfg")
  case (Inl e)
  from assms [unfolded runPlanExecution_plan_failed [OF Inl]]
  have "code = 1" and w': "w' = ioError (ErrorLine e) (called PlanFromFile w)"
    by simp_all
  moreover have "newErrors w w' = [ErrorLine e]" "newLines w w' = []"
    unfolding w' by (simp_all add: newErrors_def newLines_def world_frame)
  ultimately show ?thesis using Inl by simp
next
  case (Inr plan)
  let ?ops = "pipelineOperations tpl plan cfg w"
  let ?st = "executorStart cfg ?ops w"
  note u = assms [unfolded runPlanExecution_planned [OF Inr]]
  from u obtain st where run: "executeOperations cfg (pipelinePolicies cfg ?ops) ?ops ?st = Some st"
    by (cases "executeOperations cfg (pipelinePolicies cfg ?ops) ?ops ?st") simp_all
  note inv = executeOperations_invariant [OF run]
  from inv obtain failed where
    err: "errored (world st) = errored w @ failed"
    and failed: "\<forall>l\<in>set failed. \<exists>e. l = OperationFailed e"
    by (auto simp: executorStart_fields)
  let ?printed = "[SummaryReport (summarizeCategories ?ops)] @
       (if createConflictHandler (terminal w) (summarizeCategories ?ops) (effectiveOverwrite cfg) = None
           \<and> effectiveOverwrite cfg = PromptPolicy
        then [Warning promptUnavailableWarning] else [])"
  from inv have lg: "logged (world st) = logged w @ ?printed"
    by (simp add: executorStart_logged)
  have printed: "\<forall>l\<in>set ?printed. (\<exists>s. l = SummaryReport s) \<or> (\<exists>m. l = Warning m)"
    by simp
  show ?thesis
  proof (cases "aborted st")
    case None
    with u run have "code = 0"
      and w': "w' = printCompletionGuide (agent cfg)
                 (ioLog (SetupCompleted (written (result st)) (skipped (result st))) (world st))"
      by simp_all
    have "newErrors w w' = failed"
      unfolding w' by (rule newErrors_append) (simp add: world_frame err)
    moreover have "newLines w w' =
        ?printed @ [SetupCompleted (written (result st)) (skipped (result st)), CompletionGuide (agent cfg)]"
      unfolding w' by (rule newLines_append) (simp add: world_frame lg)
    ultimately show ?thesis using Inr \<open>code = 0\<close> failed by blast
  next
    case (Some e)
    with inv obtain p where e: "e = BackupError p"
      by (auto simp: executorStart_fields)
    from Some u run have "code = 1" and w': "w' = ioError (ErrorLine e) (world st)"
      by simp_all
    have "newErrors w w' = failed @ [ErrorLine (BackupError p)]"
      unfolding w' by (rule newErrors_append) (simp add: world_frame err e)
    moreover have "newLines w w' = ?printed"
      unfolding w' by (rule newLines_append) (simp add: world_frame lg)
    ultimately show ?thesis using Inr \<open>code = 1\<close> failed printed by blast
  qed
qed

text \<open>
  \<^verbatim>\<open>runPlanExecution\<close> after a successful plan, by what the executor call does: the
  \<^verbatim>\<open>try\<close> block of the source.
\<close>

lemma executorCall_unfold:
  "executorCall tpl cfg plan w =
     (case executeOperations cfg (pipelinePolicies cfg (pipelineOperations tpl plan cfg w))
             (pipelineOperations tpl plan cfg w)
             (executorStart cfg (pipelineOperations tpl plan cfg w) w) of
        None \<Rightarrow> None
      | Some st \<Rightarrow>
          Some ((case aborted st of Some e \<Rightarrow> Inl e | None \<Rightarrow> Inr (result st)), world st))"
  unfolding executorCall_def executeProcessedArtifacts_def executorStart_def Let_def ..

lemma runPlanExecution_executor:
  assumes "planFromFile tpl (fileSystem w) manifestPath cfg = Inr plan"
  shows "runPlanExecution tpl manifestPath cfg w =
     (case executorCall tpl cfg plan w of
        None \<Rightarrow> None
      | Some (Inl e, w8) \<Rightarrow> Some (1, ioError (ErrorLine e) w8)
      | Some (Inr res, w8) \<Rightarrow>
          Some (0, printCompletionGuide (agent cfg)
                     (ioLog (SetupCompleted (written res) (skipped res)) w8)))"
proof -
  let ?run = "executeOperations cfg (pipelinePolicies cfg (pipelineOperations tpl plan cfg w))
             (pipelineOperations tpl plan cfg w)
             (executorStart cfg (pipelineOperations tpl plan cfg w) w)"
  show ?thesis
  proof (cases ?run)
    case None
    then show ?thesis
      unfolding runPlanExecution_planned [OF assms] executorCall_unfold by simp
  next
    case (Some st)
    then show ?thesis
      unfolding runPlanExecution_planned [OF assms] executorCall_unfold
      by (cases "aborted st") simp_all
  qed
qed

lemma executorCall_throws:
  assumes "executorCall tpl cfg plan w = Some (Inl e, w8)"
  shows "\<exists>p. e = BackupError p"
proof -
  let ?ops = "pipelineOperations tpl plan cfg w"
  from assms obtain st where
    run: "executeOperations cfg (pipelinePolicies cfg ?ops) ?ops (executorStart cfg ?ops w) = Some st"
    and a: "aborted st = Some e"
    unfolding executorCall_unfold by (auto split: option.splits)
  from executeOperations_invariant [OF run] a show ?thesis
    by (auto simp: executorStart_fields)
qed

text \<open>
  C9. The exit code of \<^verbatim>\<open>runPlanExecution\<close> is decided by its \<^verbatim>\<open>try\<close>/\<^verbatim>\<open>catch\<close>. When the
  planner throws, the run returns 1 with the error line. When the plan succeeds, the run
  does what the executor call does: it does not return when the call does not; it returns
  1 with the error line when the call throws; it returns 0, after the completion line with
  the counts \<open>written\<close> and \<open>skipped\<close> of the Run Result, when the call returns, whatever
  the counts are. The executor throws only a \<open>BackupError\<close>. So whenever the run returns,
  the code is 0 or 1, it is non-zero exactly when the \<^verbatim>\<open>catch\<close> block wrote an error line,
  which carries the planner's error or the executor's \<open>BackupError\<close>, and it is 0 exactly
  when the completion line was written. Under the global setting \<open>skip\<close> a run whose plan
  succeeds returns 0 and reports every conflicting file in the \<open>skipped\<close> count.
\<close>

theorem exit_code:
  "(\<forall>e. planFromFile tpl (fileSystem w) manifestPath cfg = Inl e \<longrightarrow>
      runPlanExecution tpl manifestPath cfg w =
        Some (1, ioError (ErrorLine e) (called PlanFromFile w))) \<and>
   (\<forall>plan. planFromFile tpl (fileSystem w) manifestPath cfg = Inr plan \<longrightarrow>
      (executorCall tpl cfg plan w = None \<longrightarrow> runPlanExecution tpl manifestPath cfg w = None) \<and>
      (\<forall>e w8. executorCall tpl cfg plan w = Some (Inl e, w8) \<longrightarrow>
          runPlanExecution tpl manifestPath cfg w = Some (1, ioError (ErrorLine e) w8) \<and>
          (\<exists>p. e = BackupError p)) \<and>
      (\<forall>res w8. executorCall tpl cfg plan w = Some (Inr res, w8) \<longrightarrow>
          runPlanExecution tpl manifestPath cfg w =
            Some (0, printCompletionGuide (agent cfg)
                       (ioLog (SetupCompleted (written res) (skipped res)) w8)))) \<and>
   (runPlanExecution tpl manifestPath cfg w = Some (code, w') \<longrightarrow>
      (code = 0 \<or> code = 1) \<and>
      (code \<noteq> 0 \<longleftrightarrow> (\<exists>e. ErrorLine e \<in> set (newErrors w w'))) \<and>
      (\<forall>e. ErrorLine e \<in> set (newErrors w w') \<longrightarrow>
           planFromFile tpl (fileSystem w) manifestPath cfg = Inl e \<or>
           (\<exists>plan p. planFromFile tpl (fileSystem w) manifestPath cfg = Inr plan \<and>
                     e = BackupError p)) \<and>
      ((\<exists>e. planFromFile tpl (fileSystem w) manifestPath cfg = Inl e) \<longrightarrow> code = 1) \<and>
      (code = 0 \<longleftrightarrow> (\<exists>n m. SetupCompleted n m \<in> set (newLines w w')))) \<and>
   (\<forall>plan. effectiveOverwrite cfg = SkipPolicy \<and>
    planFromFile tpl (fileSystem w) manifestPath cfg = Inr plan \<longrightarrow>
      (\<exists>w'' n. runPlanExecution tpl manifestPath cfg w = Some (0, w'') \<and>
          SetupCompleted n (length (filter conflicting (pipelineOperations tpl plan cfg w)))
            \<in> set (newLines w w'')))"
proof -
  have 1: "\<forall>e. planFromFile tpl (fileSystem w) manifestPath cfg = Inl e \<longrightarrow>
      runPlanExecution tpl manifestPath cfg w =
        Some (1, ioError (ErrorLine e) (called PlanFromFile w))"
    using runPlanExecution_plan_failed by blast
  have 2: "\<forall>plan. planFromFile tpl (fileSystem w) manifestPath cfg = Inr plan \<longrightarrow>
      (executorCall tpl cfg plan w = None \<longrightarrow> runPlanExecution tpl manifestPath cfg w = None) \<and>
      (\<forall>e w8. executorCall tpl cfg plan w = Some (Inl e, w8) \<longrightarrow>
          runPlanExecution tpl manifestPath cfg w = Some (1, ioError (ErrorLine e) w8) \<and>
          (\<exists>p. e = BackupError p)) \<and>
      (\<forall>res w8. executorCall tpl cfg plan w = Some (Inr res, w8) \<longrightarrow>
          runPlanExecution tpl manifestPath cfg w =
            Some (0, printCompletionGuide (agent cfg)
                       (ioLog (SetupCompleted (written res) (skipped res)) w8)))"
  proof (intro allI impI conjI)
    fix plan
    assume p: "planFromFile tpl (fileSystem w) manifestPath cfg = Inr plan"
    note r = runPlanExecution_executor [OF p]
    {
      assume "executorCall tpl cfg plan w = None"
      then show "runPlanExecution tpl manifestPath cfg w = None"
        unfolding r by simp
    }
    {
      fix e w8
      assume c: "executorCall tpl cfg plan w = Some (Inl e, w8)"
      then show "runPlanExecution tpl manifestPath cfg w = Some (1, ioError (ErrorLine e) w8)"
        unfolding r by simp
      from c show "\<exists>p. e = BackupError p" by (rule executorCall_throws)
    }
    {
      fix res w8
      assume "executorCall tpl cfg plan w = Some (Inr res, w8)"
      then show "runPlanExecution tpl manifestPath cfg w =
            Some (0, printCompletionGuide (agent cfg)
                       (ioLog (SetupCompleted (written res) (skipped res)) w8))"
        unfolding r by simp
    }
  qed
  have 3: "runPlanExecution tpl manifestPath cfg w = Some (code, w') \<longrightarrow>
      (code = 0 \<or> code = 1) \<and>
      (code \<noteq> 0 \<longleftrightarrow> (\<exists>e. ErrorLine e \<in> set (newErrors w w'))) \<and>
      (\<forall>e. ErrorLine e \<in> set (newErrors w w') \<longrightarrow>
           planFromFile tpl (fileSystem w) manifestPath cfg = Inl e \<or>
           (\<exists>plan p. planFromFile tpl (fileSystem w) manifestPath cfg = Inr plan \<and>
                     e = BackupError p)) \<and>
      ((\<exists>e. planFromFile tpl (fileSystem w) manifestPath cfg = Inl e) \<longrightarrow> code = 1) \<and>
      (code = 0 \<longleftrightarrow> (\<exists>n m. SetupCompleted n m \<in> set (newLines w w')))"
  proof (intro conjI impI)
    assume run: "runPlanExecution tpl manifestPath cfg w = Some (code, w')"
    note o = runPlanExecution_outcomes [OF run]
    from o show "code = 0 \<or> code = 1" by auto
    from o show "code \<noteq> 0 \<longleftrightarrow> (\<exists>e. ErrorLine e \<in> set (newErrors w w'))"
      by (elim disjE exE conjE) auto
    from o show "\<forall>e. ErrorLine e \<in> set (newErrors w w') \<longrightarrow>
           planFromFile tpl (fileSystem w) manifestPath cfg = Inl e \<or>
           (\<exists>plan p. planFromFile tpl (fileSystem w) manifestPath cfg = Inr plan \<and>
                     e = BackupError p)"
      by (elim disjE exE conjE) auto
    from o show "code = 0 \<longleftrightarrow> (\<exists>n m. SetupCompleted n m \<in> set (newLines w w'))"
      by (elim disjE exE conjE) auto
    {
      assume "\<exists>e. planFromFile tpl (fileSystem w) manifestPath cfg = Inl e"
      with o show "code = 1" by auto
    }
  qed
  have 4: "\<forall>plan. effectiveOverwrite cfg = SkipPolicy \<and>
    planFromFile tpl (fileSystem w) manifestPath cfg = Inr plan \<longrightarrow>
      (\<exists>w'' n. runPlanExecution tpl manifestPath cfg w = Some (0, w'') \<and>
          SetupCompleted n (length (filter conflicting (pipelineOperations tpl plan cfg w)))
            \<in> set (newLines w w''))"
  proof (intro allI impI)
    fix plan
    assume a: "effectiveOverwrite cfg = SkipPolicy \<and>
      planFromFile tpl (fileSystem w) manifestPath cfg = Inr plan"
    then have plan: "planFromFile tpl (fileSystem w) manifestPath cfg = Inr plan"
      and mode: "effectiveOverwrite cfg = SkipPolicy \<or>
                 effectiveOverwrite cfg = PromptPolicy \<and> \<not> interactive (terminal w)"
      by simp_all
    from runPlanExecution_quiet [OF plan mode] a
    show "\<exists>w'' n. runPlanExecution tpl manifestPath cfg w = Some (0, w'') \<and>
          SetupCompleted n (length (filter conflicting (pipelineOperations tpl plan cfg w)))
            \<in> set (newLines w w'')"
      by auto
  qed
  from 1 2 3 4 show ?thesis by (intro conjI)
qed

lemma lockedWorld_plan:
  "planFromFile exampleTemplates (fileSystem lockedWorld) ''m.json''
     (exampleConfig ForcePolicy (Some ''bak'')) = Inr examplePlan"
  by code_simp

lemma lockedWorld_executor:
  "(case executorCall exampleTemplates (exampleConfig ForcePolicy (Some ''bak'')) examplePlan
           lockedWorld of
      Some (Inl e, w8) \<Rightarrow> Some e
    | _ \<Rightarrow> None) = Some (BackupError ''.kiro/b.md'')"
  by code_simp

theorem exit_code_witness:
  "effectiveOverwrite (exampleConfig SkipPolicy None) = SkipPolicy \<and>
   planFromFile exampleTemplates (fileSystem (exampleWorld False [] [])) ''m.json''
     (exampleConfig SkipPolicy None) = Inr examplePlan \<and>
   (\<exists>w' n. runPlanExecution exampleTemplates ''m.json'' (exampleConfig SkipPolicy None)
              (exampleWorld False [] []) = Some (0, w') \<and>
      SetupCompleted n 3 \<in> set (newLines (exampleWorld False [] []) w') \<and>
      (\<forall>e. ErrorLine e \<notin> set (newErrors (exampleWorld False [] []) w'))) \<and>
   planFromFile exampleTemplates (fileSystem (exampleWorld False [] [])) ''none.json''
     (exampleConfig SkipPolicy None) = Inl (ManifestError ''none.json'') \<and>
   runPlanExecution exampleTemplates ''none.json'' (exampleConfig SkipPolicy None)
     (exampleWorld False [] []) =
     Some (1, ioError (ErrorLine (ManifestError ''none.json''))
                (called PlanFromFile (exampleWorld False [] []))) \<and>
   planFromFile exampleTemplates (fileSystem lockedWorld) ''m.json''
     (exampleConfig ForcePolicy (Some ''bak'')) = Inr examplePlan \<and>
   (\<exists>w8. executorCall exampleTemplates (exampleConfig ForcePolicy (Some ''bak'')) examplePlan
            lockedWorld = Some (Inl (BackupError ''.kiro/b.md''), w8) \<and>
      runPlanExecution exampleTemplates ''m.json'' (exampleConfig ForcePolicy (Some ''bak''))
        lockedWorld = Some (1, ioError (ErrorLine (BackupError ''.kiro/b.md'')) w8))"
proof -
  let ?w = "exampleWorld False [] []"
  let ?cfg = "exampleConfig SkipPolicy None"
  let ?force = "exampleConfig ForcePolicy (Some ''bak'')"
  have s: "effectiveOverwrite ?cfg = SkipPolicy" by (simp add: exampleConfig_def)
  have plan: "planFromFile exampleTemplates (fileSystem ?w) ''m.json'' ?cfg = Inr examplePlan"
    unfolding exampleWorld_fileSystem by (rule examplePlan_value)
  note skip = exit_code [of exampleTemplates ?w "''m.json''" ?cfg]
  from skip [THEN conjunct2, THEN conjunct2, THEN conjunct2, THEN spec, of examplePlan] s plan
  obtain w' n where
    run: "runPlanExecution exampleTemplates ''m.json'' ?cfg ?w = Some (0, w')"
    and cnt: "SetupCompleted n (length (filter conflicting
                  (pipelineOperations exampleTemplates examplePlan ?cfg ?w))) \<in> set (newLines ?w w')"
    by blast
  from skip [of 0 w', THEN conjunct2, THEN conjunct2, THEN conjunct1] run
  have "\<forall>e. ErrorLine e \<notin> set (newErrors ?w w')"
    by simp
  with run cnt have
    "runPlanExecution exampleTemplates ''m.json'' ?cfg ?w = Some (0, w') \<and>
      SetupCompleted n 3 \<in> set (newLines ?w w') \<and>
      (\<forall>e. ErrorLine e \<notin> set (newErrors ?w w'))"
    by (simp add: example_pipelineOperations example_conflicting)
  then have 1: "\<exists>w' n. runPlanExecution exampleTemplates ''m.json'' ?cfg ?w = Some (0, w') \<and>
      SetupCompleted n 3 \<in> set (newLines ?w w') \<and>
      (\<forall>e. ErrorLine e \<notin> set (newErrors ?w w'))"
    by blast
  have bad: "planFromFile exampleTemplates (fileSystem ?w) ''none.json'' ?cfg =
               Inl (ManifestError ''none.json'')"
    unfolding exampleWorld_fileSystem by code_simp
  from exit_code [of exampleTemplates ?w "''none.json''" ?cfg, THEN conjunct1, THEN spec, THEN mp, OF bad]
  have 2: "runPlanExecution exampleTemplates ''none.json'' ?cfg ?w =
     Some (1, ioError (ErrorLine (ManifestError ''none.json'')) (called PlanFromFile ?w))" .
  obtain w8 where
    call: "executorCall exampleTemplates ?force examplePlan lockedWorld =
             Some (Inl (BackupError ''.kiro/b.md''), w8)"
    using lockedWorld_executor
    by (cases "executorCall exampleTemplates ?force examplePlan lockedWorld")
       (auto split: sum.splits)
  from exit_code [of exampleTemplates lockedWorld "''m.json''" ?force,
      THEN conjunct2, THEN conjunct1, THEN spec, THEN mp, OF lockedWorld_plan,
      THEN conjunct2, THEN conjunct1, THEN spec, THEN spec, THEN mp, OF call]
  have "runPlanExecution exampleTemplates ''m.json'' ?force lockedWorld =
          Some (1, ioError (ErrorLine (BackupError ''.kiro/b.md'')) w8)"
    by (rule conjunct1)
  with call have 3: "\<exists>w8. executorCall exampleTemplates ?force examplePlan lockedWorld =
            Some (Inl (BackupError ''.kiro/b.md''), w8) \<and>
      runPlanExecution exampleTemplates ''m.json'' ?force lockedWorld =
        Some (1, ioError (ErrorLine (BackupError ''.kiro/b.md'')) w8)"
    by blast
  from s plan 1 bad 2 lockedWorld_plan 3 show ?thesis by (intro conjI)
qed

text \<open>
  Computed: a run that only skips returns 0 with \<open>written = 0\<close> and \<open>skipped = 3\<close>; a run
  whose manifest is missing returns 1.
\<close>

lemma skipping_run_example:
  "(case runPlanExecution exampleTemplates ''m.json'' (exampleConfig SkipPolicy None)
           (exampleWorld False [] []) of
      None \<Rightarrow> None
    | Some (code, w) \<Rightarrow> Some (code, tl (logged w), errored w)) =
   Some (0, [SetupCompleted 0 3, CompletionGuide ''cursor''], [])"
  by code_simp

lemma missing_manifest_run_example:
  "(case runPlanExecution exampleTemplates ''none.json'' (exampleConfig SkipPolicy None)
           (exampleWorld False [] []) of
      None \<Rightarrow> None
    | Some (code, w) \<Rightarrow> Some (code, logged w, errored w)) =
   Some (1, [], [ErrorLine (ManifestError ''none.json'')])"
  by code_simp

lemma handleDryRun_plan_failed:
  assumes "planFromFile tpl (fileSystem w) manifestPath cfg = Inl e"
  shows "handleDryRun tpl manifestPath cfg w = (1, ioError (ErrorLine e) (called PlanFromFile w))"
  using assms by (simp add: handleDryRun_def called_frame)

lemma handleDryRun_planned:
  assumes "planFromFile tpl (fileSystem w) manifestPath cfg = Inr plan"
  shows "handleDryRun tpl manifestPath cfg w =
     (0, ioLog (ArtifactDetails plan)
           (ioLog (Heading artifactDetailsHeading)
              (printSummary (summarizeCategories (pipelineOperations tpl plan cfg w)) cfg
                 (called SummarizeCategories (called BuildFileOperations (called PlanFromFile w))))))"
  using assms by (simp add: handleDryRun_def Let_def called_frame pipelineOperations_def)

lemma runPlanExecution_prefix:
  assumes plan: "planFromFile tpl (fileSystem w) manifestPath cfg = Inr plan"
    and run: "runPlanExecution tpl manifestPath cfg w = Some (code, w')"
  shows "take 4 (newCalls w w') =
           [PlanFromFile, BuildFileOperations, SummarizeCategories, PrintSummary] \<and>
         take 1 (newLines w w') =
           [SummaryReport (summarizeCategories (pipelineOperations tpl plan cfg w))] \<and>
         ExecuteProcessedArtifacts \<in> set (newCalls w w')"
proof -
  let ?ops = "pipelineOperations tpl plan cfg w"
  let ?st = "executorStart cfg ?ops w"
  note u = run [unfolded runPlanExecution_planned [OF plan]]
  from u obtain st where ex: "executeOperations cfg (pipelinePolicies cfg ?ops) ?ops ?st = Some st"
    by (cases "executeOperations cfg (pipelinePolicies cfg ?ops) ?ops ?st") simp_all
  note inv = executeOperations_invariant [OF ex]
  from inv have lg: "logged (world st) = logged (world ?st)"
    and iv: "invoked (world st) = invoked (world ?st)" by simp_all
  from u ex obtain tail_log tail_calls where
    "logged w' = logged (world st) @ tail_log" "invoked w' = invoked (world st) @ tail_calls"
    by (cases "aborted st") (auto simp: world_frame)
  then have "newLines w w' = drop (length (logged w)) (logged (world ?st) @ tail_log)"
    and "newCalls w w' = drop (length (invoked w)) (invoked (world ?st) @ tail_calls)"
    by (simp_all add: newLines_def newCalls_def lg iv)
  then show ?thesis
    by (simp add: executorStart_logged executorStart_invoked)
qed

text \<open>
  C4. \<^verbatim>\<open>runCli\<close> with the dry-run flag runs \<^verbatim>\<open>handleDryRun\<close>. It leaves the filesystem and
  the terminal as they were and does not call the executor. When the plan succeeds it
  returns 0 after calling the planner, the builder and the summaries, and writes the
  summary, the heading and the artifact details to \<^verbatim>\<open>io.log\<close>; a run without the flag
  starts with the same four calls and the same summary line, and does call the executor.
  When the plan fails, it returns 1 with the error line, as the run without the flag does.
\<close>

theorem dry_run_frame:
  "runPipeline True tpl manifestPath cfg w = Some (handleDryRun tpl manifestPath cfg w) \<and>
   fileSystem (snd (handleDryRun tpl manifestPath cfg w)) = fileSystem w \<and>
   terminal (snd (handleDryRun tpl manifestPath cfg w)) = terminal w \<and>
   ExecuteProcessedArtifacts \<notin> set (newCalls w (snd (handleDryRun tpl manifestPath cfg w))) \<and>
   (\<forall>plan. planFromFile tpl (fileSystem w) manifestPath cfg = Inr plan \<longrightarrow>
      fst (handleDryRun tpl manifestPath cfg w) = 0 \<and>
      newCalls w (snd (handleDryRun tpl manifestPath cfg w)) =
        [PlanFromFile, BuildFileOperations, SummarizeCategories, PrintSummary] \<and>
      newLines w (snd (handleDryRun tpl manifestPath cfg w)) =
        [SummaryReport (summarizeCategories (pipelineOperations tpl plan cfg w)),
         Heading artifactDetailsHeading, ArtifactDetails plan] \<and>
      newErrors w (snd (handleDryRun tpl manifestPath cfg w)) = [] \<and>
      (\<forall>code w'. runPipeline False tpl manifestPath cfg w = Some (code, w') \<longrightarrow>
         take 4 (newCalls w w') =
           [PlanFromFile, BuildFileOperations, SummarizeCategories, PrintSummary] \<and>
         take 1 (newLines w w') =
           [SummaryReport (summarizeCategories (pipelineOperations tpl plan cfg w))] \<and>
         ExecuteProcessedArtifacts \<in> set (newCalls w w'))) \<and>
   (\<forall>e. planFromFile tpl (fileSystem w) manifestPath cfg = Inl e \<longrightarrow>
      fst (handleDryRun tpl manifestPath cfg w) = 1 \<and>
      newErrors w (snd (handleDryRun tpl manifestPath cfg w)) = [ErrorLine e] \<and>
      newLines w (snd (handleDryRun tpl manifestPath cfg w)) = [] \<and>
      runPipeline False tpl manifestPath cfg w = Some (handleDryRun tpl manifestPath cfg w))"
proof (cases "planFromFile tpl (fileSystem w) manifestPath cfg")
  case (Inl e)
  note d = handleDryRun_plan_failed [OF Inl]
  note r = runPlanExecution_plan_failed [OF Inl]
  show ?thesis
    unfolding d by (simp add: Inl runPipeline_def d r world_frame newCalls_def newLines_def newErrors_def)
next
  case (Inr plan)
  note d = handleDryRun_planned [OF Inr]
  have p: "\<forall>code w'. runPipeline False tpl manifestPath cfg w = Some (code, w') \<longrightarrow>
         take 4 (newCalls w w') =
           [PlanFromFile, BuildFileOperations, SummarizeCategories, PrintSummary] \<and>
         take 1 (newLines w w') =
           [SummaryReport (summarizeCategories (pipelineOperations tpl plan cfg w))] \<and>
         ExecuteProcessedArtifacts \<in> set (newCalls w w')"
    using runPlanExecution_prefix [OF Inr] by (simp add: runPipeline_def)
  show ?thesis
    unfolding d using p
    by (simp add: Inr runPipeline_def d world_frame newCalls_def newLines_def newErrors_def)
qed

theorem dry_run_frame_witness:
  "planFromFile exampleTemplates (fileSystem (exampleWorld True [] [])) ''m.json''
     (exampleConfig ForcePolicy None) = Inr examplePlan \<and>
   fst (handleDryRun exampleTemplates ''m.json'' (exampleConfig ForcePolicy None)
          (exampleWorld True [] [])) = 0 \<and>
   fileSystem (snd (handleDryRun exampleTemplates ''m.json'' (exampleConfig ForcePolicy None)
          (exampleWorld True [] []))) = exampleFileSystem \<and>
   newLines (exampleWorld True [] [])
     (snd (handleDryRun exampleTemplates ''m.json'' (exampleConfig ForcePolicy None)
          (exampleWorld True [] []))) =
     [SummaryReport (summarizeCategories exampleOperations),
      Heading artifactDetailsHeading, ArtifactDetails examplePlan] \<and>
   planFromFile exampleTemplates (fileSystem (exampleWorld True [] [])) ''none.json''
     (exampleConfig ForcePolicy None) = Inl (ManifestError ''none.json'') \<and>
   fst (handleDryRun exampleTemplates ''none.json'' (exampleConfig ForcePolicy None)
          (exampleWorld True [] [])) = 1"
proof -
  let ?w = "exampleWorld True [] []"
  let ?cfg = "exampleConfig ForcePolicy None"
  have plan: "planFromFile exampleTemplates (fileSystem ?w) ''m.json'' ?cfg = Inr examplePlan"
    unfolding exampleWorld_fileSystem by (rule examplePlan_value)
  have bad: "planFromFile exampleTemplates (fileSystem ?w) ''none.json'' ?cfg =
               Inl (ManifestError ''none.json'')"
    unfolding exampleWorld_fileSystem by code_simp
  note good = dry_run_frame [of exampleTemplates "''m.json''" ?cfg ?w]
  note fail = dry_run_frame [of exampleTemplates "''none.json''" ?cfg ?w]
  from good plan have 1: "fst (handleDryRun exampleTemplates ''m.json'' ?cfg ?w) = 0"
    by blast
  from good have 2: "fileSystem (snd (handleDryRun exampleTemplates ''m.json'' ?cfg ?w)) =
                       exampleFileSystem"
    by (simp add: exampleWorld_fileSystem)
  from good plan have "newLines ?w (snd (handleDryRun exampleTemplates ''m.json'' ?cfg ?w)) =
        [SummaryReport (summarizeCategories (pipelineOperations exampleTemplates examplePlan ?cfg ?w)),
         Heading artifactDetailsHeading, ArtifactDetails examplePlan]"
    by blast
  then have 3: "newLines ?w (snd (handleDryRun exampleTemplates ''m.json'' ?cfg ?w)) =
        [SummaryReport (summarizeCategories exampleOperations),
         Heading artifactDetailsHeading, ArtifactDetails examplePlan]"
    by (simp add: example_pipelineOperations)
  from fail bad have 4: "fst (handleDryRun exampleTemplates ''none.json'' ?cfg ?w) = 1"
    by blast
  from plan 1 2 3 bad 4 show ?thesis by (intro conjI)
qed

text \<open>
  Computed: a dry run against a directory with three conflicting files, under \<open>force\<close>,
  leaves the three files as they were; the run without the flag overwrites them.
\<close>

lemma dry_run_example:
  "map (files (fileSystem (snd (handleDryRun exampleTemplates ''m.json''
          (exampleConfig ForcePolicy None) (exampleWorld True [] [])))))
     [''.kiro/a.md'', ''.kiro/b.md'', ''.kiro/c.md'', ''DOC.md''] =
   [Some ''old a'', Some ''old b'', Some ''old c'', Some ''new doc.md'']"
  by code_simp


end
